theory Spec2Isabelle
  imports Complex_Main "HOL-Library.AList" "HOL-Library.Sublist"
begin

section \<open>Python values, objects and errors\<close>

text \<open>
  The module \<^verbatim>\<open>src/problems/hpo_wrapper.py\<close> works on dictionaries from strings to
  tensor objects.  Objects have identity (the resolver of \<^verbatim>\<open>setup\<close> compares with
  \<^verbatim>\<open>is\<close>) and dictionaries are mutable (\<^verbatim>\<open>evaluate\<close> copies one and updates the
  copy), so both live in a store: an arena of tensor objects and an arena of
  dictionary objects, an object's identity being its index.  What a tensor holds is a
  type parameter; the wrapper never looks inside.
\<close>

type_synonym addr = nat

text \<open>A \<^verbatim>\<open>Dict[str, torch.Tensor]\<close>: insertion-ordered, values are references.\<close>

type_synonym pydict = "(string \<times> addr) list"

datatype assertion =
    Indicator_not_str
  | Indicator_unsupported string
  | Iterations_not_positive int
  | Num_instances_not_positive int
  | Monitor_not_HPOMonitor
  | Monitor_keys_mismatch nat nat
  | Key_not_in_state string
  | Not_a_Parameter string

datatype error =
    AssertionError assertion
  | AttributeError string
  | KeyError string
  | RuntimeError string
  | NotImplementedError

record 'v tensor =
  is_Parameter :: bool
  payload :: 'v

record ('v, 'g) world =
  tensors :: "'v tensor list"
  dicts :: "pydict list"
  rng :: 'g

definition new_tensor :: "'v tensor \<Rightarrow> ('v, 'g) world \<Rightarrow> addr \<times> ('v, 'g) world" where
  "new_tensor t s = (length (tensors s), s\<lparr>tensors := tensors s @ [t]\<rparr>)"

definition new_dict :: "pydict \<Rightarrow> ('v, 'g) world \<Rightarrow> addr \<times> ('v, 'g) world" where
  "new_dict d s = (length (dicts s), s\<lparr>dicts := dicts s @ [d]\<rparr>)"

text \<open>\<^verbatim>\<open>isinstance(v, nn.Parameter)\<close> for a reference \<open>v\<close>.\<close>

definition isinstance_Parameter :: "('v, 'g) world \<Rightarrow> addr \<Rightarrow> bool" where
  "isinstance_Parameter s a = (a < length (tensors s) \<and> is_Parameter (tensors s ! a))"

text \<open>\<^verbatim>\<open>d.update(other)\<close> on dictionary contents: each item of \<open>other\<close> in turn.\<close>

definition dict_update :: "pydict \<Rightarrow> pydict \<Rightarrow> pydict" where
  "dict_update d other = fold (\<lambda>(k, v) acc. AList.update k v acc) other d"

text \<open>Attribute access on a module whose tensor attributes are the dictionary \<open>self\<close>.\<close>

definition getattr :: "('v, 'g) world \<Rightarrow> addr \<Rightarrow> string \<Rightarrow> error + addr" where
  "getattr s self name =
     (case map_of (dicts s ! self) name of
        None \<Rightarrow> Inl (AttributeError name)
      | Some a \<Rightarrow> Inr a)"

definition setattr :: "('v, 'g) world \<Rightarrow> addr \<Rightarrow> string \<Rightarrow> addr \<Rightarrow> ('v, 'g) world" where
  "setattr s self name a = s\<lparr>dicts := (dicts s)[self := AList.update name a (dicts s ! self)]\<rparr>"

section \<open>str.capitalize\<close>

text \<open>
  Strings are byte strings here; \<^verbatim>\<open>capitalize\<close> upper-cases the first character and
  lower-cases the rest, and only the ASCII letters have a case.
\<close>

definition is_ascii_upper :: "char \<Rightarrow> bool" where
  "is_ascii_upper c = (65 \<le> (of_char c :: nat) \<and> (of_char c :: nat) \<le> 90)"

definition is_ascii_lower :: "char \<Rightarrow> bool" where
  "is_ascii_lower c = (97 \<le> (of_char c :: nat) \<and> (of_char c :: nat) \<le> 122)"

definition lower_char :: "char \<Rightarrow> char" where
  "lower_char c = (if is_ascii_upper c then char_of ((of_char c :: nat) + 32) else c)"

definition upper_char :: "char \<Rightarrow> char" where
  "upper_char c = (if is_ascii_lower c then char_of ((of_char c :: nat) - 32) else c)"

fun capitalize :: "string \<Rightarrow> string" where
  "capitalize [] = []"
| "capitalize (c # cs) = upper_char c # map lower_char cs"

section \<open>HPOFitnessMonitor\<close>

text \<open>
  Floating-point values as far as \<^verbatim>\<open>torch.min\<close> sees them: comparison involves no
  rounding, so finite values are reals; the infinities and NaN are values of their own.
\<close>

datatype tfloat = NaN | NegInf | Finite real | PosInf

text \<open>The IEEE comparison \<open>a <= b\<close>: false as soon as one side is NaN.\<close>

fun fl_le :: "tfloat \<Rightarrow> tfloat \<Rightarrow> bool" where
  "fl_le NaN _ = False"
| "fl_le _ NaN = False"
| "fl_le NegInf _ = True"
| "fl_le _ PosInf = True"
| "fl_le (Finite x) (Finite y) = (x \<le> y)"
| "fl_le (Finite x) NegInf = False"
| "fl_le PosInf (Finite y) = False"
| "fl_le PosInf NegInf = False"

text \<open>\<^verbatim>\<open>torch.minimum\<close> on two elements: NaN propagates.\<close>

definition fl_minimum :: "tfloat \<Rightarrow> tfloat \<Rightarrow> tfloat" where
  "fl_minimum a b = (if a = NaN \<or> b = NaN then NaN else if fl_le a b then a else b)"

record ftensor =
  shape :: "nat list"
  elems :: "tfloat list"

definition ndim :: "ftensor \<Rightarrow> nat" where
  "ndim t = length (shape t)"

text \<open>\<^verbatim>\<open>torch.min(t)\<close>, the reduction over all elements; it raises on an empty tensor.\<close>

definition torch_min :: "ftensor \<Rightarrow> error + tfloat" where
  "torch_min t =
     (case elems t of
        [] \<Rightarrow> Inl (RuntimeError ''min(): Expected reduction dim to be specified for input.numel() == 0'')
      | x # xs \<Rightarrow> Inr (fold fl_minimum xs x))"

text \<open>\<^verbatim>\<open>torch.min(m, t)\<close> for a zero-dimensional \<open>m\<close>: element-wise, \<open>m\<close> broadcast.\<close>

definition torch_min2 :: "tfloat \<Rightarrow> ftensor \<Rightarrow> ftensor" where
  "torch_min2 m t = t\<lparr>elems := map (fl_minimum m) (elems t)\<rparr>"

text \<open>
  The argument of the constructor is \<^verbatim>\<open>None\<close>, a string, or any other object.  The
  monitor object is its indicator and the dictionary of its tensor attributes, which
  the base class constructor (not in the sources) creates empty; the base class
  \<^verbatim>\<open>setup\<close> is taken to do nothing.
\<close>

datatype indicator_arg = PyNone | PyStr string | PyOther

record HPOFitnessMonitor =
  multi_obj_indicator :: "string option"
  buffers :: addr

definition HPOFitnessMonitor_init ::
  "indicator_arg \<Rightarrow> ('v, 'g) world \<Rightarrow> (error + HPOFitnessMonitor) \<times> ('v, 'g) world" where
  "HPOFitnessMonitor_init arg s =
     (case arg of
        PyOther \<Rightarrow> (Inl (AssertionError Indicator_not_str), s)
      | PyNone \<Rightarrow>
          (let (b, s') = new_dict [] s
           in (Inr \<lparr>multi_obj_indicator = None, buffers = b\<rparr>, s'))
      | PyStr str \<Rightarrow>
          (let ind = capitalize str
           in if ind \<in> set [''IGD'', ''HV'']
              then (let (b, s') = new_dict [] s
                    in (Inr \<lparr>multi_obj_indicator = Some ind, buffers = b\<rparr>, s'))
              else (Inl (AssertionError (Indicator_unsupported ind)), s)))"

definition HPOFitnessMonitor_setup ::
  "HPOFitnessMonitor \<Rightarrow> (ftensor, 'g) world \<Rightarrow> (ftensor, 'g) world" where
  "HPOFitnessMonitor_setup self s =
     (let (a, s') = new_tensor \<lparr>is_Parameter = False, payload = \<lparr>shape = [], elems = [PosInf]\<rparr>\<rparr> s
      in setattr s' (buffers self) ''best_fitness'' a)"

definition pre_tell ::
  "HPOFitnessMonitor \<Rightarrow> ftensor \<Rightarrow> (ftensor, 'g) world \<Rightarrow> (error + unit) \<times> (ftensor, 'g) world" where
  "pre_tell self fitness s =
     (if ndim fitness = 1 then
        (case torch_min fitness of
           Inl e \<Rightarrow> (Inl e, s)
         | Inr m \<Rightarrow>
             (case getattr s (buffers self) ''best_fitness'' of
                Inl e \<Rightarrow> (Inl e, s)
              | Inr b \<Rightarrow>
                  (let (a, s') = new_tensor
                         \<lparr>is_Parameter = False, payload = torch_min2 m (payload (tensors s ! b))\<rparr> s
                   in (Inr (), setattr s' (buffers self) ''best_fitness'' a))))
      else (Inr (), s))"

definition tell_fitness ::
  "HPOFitnessMonitor \<Rightarrow> ('v, 'g) world \<Rightarrow> (error + addr) \<times> ('v, 'g) world" where
  "tell_fitness self s = (getattr s (buffers self) ''best_fitness'', s)"

text \<open>A sequence of \<^verbatim>\<open>pre_tell\<close> calls; the first exception ends it.\<close>

fun pre_tells ::
  "HPOFitnessMonitor \<Rightarrow> ftensor list \<Rightarrow> (ftensor, 'g) world \<Rightarrow> (error + unit) \<times> (ftensor, 'g) world" where
  "pre_tells self [] s = (Inr (), s)"
| "pre_tells self (f # fs) s =
     (case pre_tell self f s of
        (Inl e, s') \<Rightarrow> (Inl e, s')
      | (Inr u, s') \<Rightarrow> pre_tells self fs s')"

text \<open>What \<^verbatim>\<open>tell_fitness()\<close> returns, read as a value: the tensor behind the reference.\<close>

definition told :: "HPOFitnessMonitor \<Rightarrow> (ftensor, 'g) world \<Rightarrow> ftensor option" where
  "told self s =
     (case fst (tell_fitness self s) of
        Inl e \<Rightarrow> None
      | Inr a \<Rightarrow> Some (payload (tensors s ! a)))"


section \<open>extract_parameters\<close>

definition extract_parameters :: "('v, 'g) world \<Rightarrow> pydict \<Rightarrow> pydict" where
  "extract_parameters s state = filter (\<lambda>(k, v). isinstance_Parameter s v) state"

definition scalar :: "tfloat \<Rightarrow> ftensor" where
  "scalar b = \<lparr>shape = [], elems = [b]\<rparr>"

section \<open>HPOProblemWrapper\<close>

text \<open>
  \<^verbatim>\<open>use_state\<close>, \<^verbatim>\<open>vmap\<close> and \<^verbatim>\<open>jit\<close> come from \<^verbatim>\<open>src.core\<close>, and the workflow
  and its monitor are the caller's objects; they are parameters of the model.  Every
  call may raise and may change the store, so each is a function on the store that
  returns an error or a result.
\<close>

type_synonym ('a, 'v, 'g) py = "('v, 'g) world \<Rightarrow> (error + 'a) \<times> ('v, 'g) world"

definition bind :: "('a, 'v, 'g) py \<Rightarrow> ('a \<Rightarrow> ('b, 'v, 'g) py) \<Rightarrow> ('b, 'v, 'g) py" where
  "bind m f s = (case m s of (Inl e, s') \<Rightarrow> (Inl e, s') | (Inr x, s') \<Rightarrow> f x s')"

definition return :: "'a \<Rightarrow> ('a, 'v, 'g) py" where
  "return x s = (Inr x, s)"

definition raise :: "error \<Rightarrow> ('a, 'v, 'g) py" where
  "raise e s = (Inl e, s)"

text \<open>A callable from a state dictionary to a state dictionary or to a tensor.\<close>

type_synonym ('v, 'g) fn = "addr \<Rightarrow> (addr, 'v, 'g) py"

text \<open>What \<^verbatim>\<open>use_state\<close> returns, and what \<^verbatim>\<open>vmap\<close> returns.\<close>

record ('v, 'g) state_fn =
  sf_call :: "('v, 'g) fn"
  sf_init_state :: "bool \<Rightarrow> (addr, 'v, 'g) py"

record ('v, 'g) vmap_fn =
  vf_call :: "('v, 'g) fn"
  vf_init_state :: "int \<Rightarrow> (addr, 'v, 'g) py"

record ('v, 'g) core =
  use_state :: "(unit, 'v, 'g) py \<Rightarrow> (('v, 'g) state_fn, 'v, 'g) py"
  vmap :: "('v, 'g) state_fn \<Rightarrow> (('v, 'g) vmap_fn, 'v, 'g) py"
  jit :: "('v, 'g) fn \<Rightarrow> addr \<Rightarrow> (('v, 'g) fn, 'v, 'g) py"

text \<open>
  A monitor that is an instance of \<^verbatim>\<open>HPOMonitor\<close>: its \<^verbatim>\<open>state_dict(keep_vars=True)\<close>,
  \<^verbatim>\<open>load_state_dict\<close> and \<^verbatim>\<open>tell_fitness\<close>.  Any other submodule is known by the
  attributes it exposes.
\<close>

record ('v, 'g) hpo_monitor =
  mon_state_dict :: "('v, 'g) world \<Rightarrow> pydict"
  mon_load_state_dict :: "pydict \<Rightarrow> (unit, 'v, 'g) py"
  mon_tell_fitness :: "(addr, 'v, 'g) py"

datatype ('v, 'g) module =
    HPOMonitor_instance "('v, 'g) hpo_monitor"
  | Other_module "string list"

fun isinstance_HPOMonitor :: "('v, 'g) module \<Rightarrow> bool" where
  "isinstance_HPOMonitor (HPOMonitor_instance m) = True"
| "isinstance_HPOMonitor (Other_module attrs) = False"

text \<open>Class \<^verbatim>\<open>HPOMonitor\<close> defines \<^verbatim>\<open>tell_fitness\<close>, so its instances expose it.\<close>

fun exposes_tell_fitness :: "('v, 'g) module \<Rightarrow> bool" where
  "exposes_tell_fitness (HPOMonitor_instance m) = True"
| "exposes_tell_fitness (Other_module attrs) = (''tell_fitness'' \<in> set attrs)"

text \<open>
  The workflow: its submodules, its bound \<^verbatim>\<open>step\<close>, and the \<^verbatim>\<open>init_step\<close> of its
  class when that is not \<^verbatim>\<open>Workflow.init_step\<close>.
\<close>

record ('v, 'g) workflow =
  submodules :: "(string \<times> ('v, 'g) module) list"
  step :: "(unit, 'v, 'g) py"
  init_step_override :: "(unit, 'v, 'g) py option"

definition get_submodule :: "('v, 'g) workflow \<Rightarrow> string \<Rightarrow> error + ('v, 'g) module" where
  "get_submodule w name =
     (case map_of (submodules w) name of
        None \<Rightarrow> Inl (AttributeError name)
      | Some m \<Rightarrow> Inr m)"

record hpo_config =
  iterations :: int
  num_instances :: int

record ('v, 'g) hpo_wrapper = hpo_config +
  init_state :: addr
  workflow_step :: "('v, 'g) fn"
  workflow_init_step :: "('v, 'g) fn"
  monitor_fitness :: "('v, 'g) fn"

definition HPOProblemWrapper_init :: "int \<Rightarrow> int \<Rightarrow> error + hpo_config" where
  "HPOProblemWrapper_init its n =
     (if \<not> its > 0 then Inl (AssertionError (Iterations_not_positive its))
      else if \<not> n > 0 then Inl (AssertionError (Num_instances_not_positive n))
      else Inr \<lparr>iterations = its, num_instances = n\<rparr>)"

subsection \<open>The monitor state-key map\<close>

text \<open>The inner loop of the resolver: the first monitor entry whose value is \<open>v\<close> itself.\<close>

fun first_match :: "addr \<Rightarrow> pydict \<Rightarrow> string option" where
  "first_match v [] = None"
| "first_match v ((sk, sv) # rest) = (if sv = v then Some sk else first_match v rest)"

text \<open>The outer loop, over the items of the workflow's state; \<open>acc\<close> is \<^verbatim>\<open>monitor_keys\<close>.\<close>

fun monitor_keys :: "pydict \<Rightarrow> pydict \<Rightarrow> (string \<times> string) list \<Rightarrow> (string \<times> string) list" where
  "monitor_keys [] monitor_state acc = acc"
| "monitor_keys ((k, v) # rest) monitor_state acc =
     (case first_match v monitor_state of
        None \<Rightarrow> monitor_keys rest monitor_state acc
      | Some sk \<Rightarrow> monitor_keys rest monitor_state (AList.update k sk acc))"

text \<open>The dictionary \<^verbatim>\<open>{sk: x[k] for k, sk in monitor_keys.items()}\<close>.\<close>

fun final_monitor_state :: "pydict \<Rightarrow> (string \<times> string) list \<Rightarrow> pydict \<Rightarrow> error + pydict" where
  "final_monitor_state x [] acc = Inr acc"
| "final_monitor_state x ((k, sk) # rest) acc =
     (case map_of x k of
        None \<Rightarrow> Inl (KeyError k)
      | Some v \<Rightarrow> final_monitor_state x rest (AList.update sk v acc))"

definition get_monitor_fitness ::
  "('v, 'g) hpo_monitor \<Rightarrow> (string \<times> string) list \<Rightarrow> ('v, 'g) fn" where
  "get_monitor_fitness monitor mk x s =
     (case final_monitor_state (dicts s ! x) mk [] of
        Inl e \<Rightarrow> (Inl e, s)
      | Inr fms \<Rightarrow> bind (mon_load_state_dict monitor fms) (\<lambda>u. mon_tell_fitness monitor) s)"

text \<open>The resolver with its assertion: the loop, then the comparison of the two sizes.\<close>

definition resolve_monitor_keys :: "pydict \<Rightarrow> pydict \<Rightarrow> error + (string \<times> string) list" where
  "resolve_monitor_keys non_batched_init_state monitor_state =
     (let mk = monitor_keys non_batched_init_state monitor_state []
      in if length mk \<noteq> length monitor_state
         then Inl (AssertionError (Monitor_keys_mismatch (length monitor_state) (length mk)))
         else Inr mk)"

subsection \<open>setup\<close>

definition HPOProblemWrapper_setup ::
  "('v, 'g) core \<Rightarrow> hpo_config \<Rightarrow> ('v, 'g) workflow \<Rightarrow> (('v, 'g) hpo_wrapper, 'v, 'g) py" where
  "HPOProblemWrapper_setup core self workflow s =
     (case get_submodule workflow ''monitor'' of
        Inl e \<Rightarrow> (Inl e, s)
      | Inr (Other_module attrs) \<Rightarrow> (Inl (AssertionError Monitor_not_HPOMonitor), s)
      | Inr (HPOMonitor_instance monitor) \<Rightarrow>
          (let monitor_state = mon_state_dict monitor s
           in bind (use_state core (step workflow)) (\<lambda>state_step.
              bind (sf_init_state state_step False) (\<lambda>nb s1.
                case resolve_monitor_keys (dicts s1 ! nb) monitor_state of
                  Inl e \<Rightarrow> (Inl e, s1)
                | Inr mk \<Rightarrow>
                     bind (vmap core state_step) (\<lambda>vmap_state_step.
                     bind (vf_init_state vmap_state_step (num_instances self)) (\<lambda>init.
                     bind (jit core (vf_call vmap_state_step) init) (\<lambda>jit_step.
                     bind (jit core (get_monitor_fitness monitor mk) init) (\<lambda>jit_fitness.
                     bind (mon_load_state_dict monitor monitor_state) (\<lambda>u.
                       case init_step_override workflow of
                         None \<Rightarrow>
                           return \<lparr>iterations = iterations self,
                                   num_instances = num_instances self,
                                   init_state = init,
                                   workflow_step = jit_step,
                                   workflow_init_step = jit_step,
                                   monitor_fitness = jit_fitness\<rparr>
                       | Some init_step \<Rightarrow>
                           bind (use_state core init_step) (\<lambda>state_init_step.
                           bind (vmap core state_init_step) (\<lambda>vmap_state_init_step.
                           bind (vf_init_state vmap_state_init_step (num_instances self)) (\<lambda>init'.
                           bind (jit core (vf_call vmap_state_init_step) init') (\<lambda>jit_init_step.
                             return \<lparr>iterations = iterations self,
                                     num_instances = num_instances self,
                                     init_state = init',
                                     workflow_step = jit_step,
                                     workflow_init_step = jit_init_step,
                                     monitor_fitness = jit_fitness\<rparr>))))))))) s1)) s))"

subsection \<open>evaluate\<close>

text \<open>The two assertions of the loop over \<^verbatim>\<open>hyper_parameters.items()\<close>.\<close>

fun check_hyper_parameters :: "('v, 'g) world \<Rightarrow> pydict \<Rightarrow> pydict \<Rightarrow> error option" where
  "check_hyper_parameters s init [] = None"
| "check_hyper_parameters s init ((k, v) # rest) =
     (case map_of init k of
        None \<Rightarrow> Some (AssertionError (Key_not_in_state k))
      | Some a \<Rightarrow>
          if isinstance_Parameter s a \<and> isinstance_Parameter s v
          then check_hyper_parameters s init rest
          else Some (AssertionError (Not_a_Parameter k)))"

definition dict_copy :: "addr \<Rightarrow> ('v, 'g) world \<Rightarrow> addr \<times> ('v, 'g) world" where
  "dict_copy d s = new_dict (dicts s ! d) s"

definition dict_update_at :: "addr \<Rightarrow> pydict \<Rightarrow> ('v, 'g) world \<Rightarrow> ('v, 'g) world" where
  "dict_update_at d other s = s\<lparr>dicts := (dicts s)[d := dict_update (dicts s ! d) other]\<rparr>"

text \<open>The loop \<^verbatim>\<open>for _ in range(n): state = step(state)\<close>.\<close>

fun repeat_step :: "nat \<Rightarrow> ('v, 'g) fn \<Rightarrow> ('v, 'g) fn" where
  "repeat_step 0 f state s = (Inr state, s)"
| "repeat_step (Suc n) f state s =
     (case f state s of
        (Inl e, s') \<Rightarrow> (Inl e, s')
      | (Inr state', s') \<Rightarrow> repeat_step n f state' s')"

definition evaluate :: "('v, 'g) hpo_wrapper \<Rightarrow> pydict \<Rightarrow> (addr, 'v, 'g) py" where
  "evaluate self hyper_parameters s =
     (case check_hyper_parameters s (dicts s ! init_state self) hyper_parameters of
        Some e \<Rightarrow> (Inl e, s)
      | None \<Rightarrow>
          (let (state, s0) = dict_copy (init_state self) s;
               s1 = dict_update_at state hyper_parameters s0
           in case workflow_init_step self state s1 of
                (Inl e, s2) \<Rightarrow> (Inl e, s2)
              | (Inr state1, s2) \<Rightarrow>
                  (case repeat_step (nat (iterations self - 1)) (workflow_step self) state1 s2 of
                     (Inl e, s3) \<Rightarrow> (Inl e, s3)
                   | (Inr state2, s3) \<Rightarrow> monitor_fitness self state2 s3)))"

section \<open>Frames and batched states\<close>

text \<open>
  \<open>extends s s'\<close>: every tensor object and every dictionary object of \<open>s\<close> is in \<open>s'\<close>
  at its address with the same content; \<open>s'\<close> may hold new objects, and its random
  generator may have advanced.  A callable is pure when it only allocates.
\<close>

definition extends :: "('v, 'g) world \<Rightarrow> ('v, 'g) world \<Rightarrow> bool" where
  "extends s s' = (prefix (tensors s) (tensors s') \<and> prefix (dicts s) (dicts s'))"

definition pure_fn :: "('v, 'g) fn \<Rightarrow> bool" where
  "pure_fn f = (\<forall>d s. extends s (snd (f d s)))"



text \<open>
  The store in which the first step runs: the copy of \<^verbatim>\<open>self.init_state\<close>, updated with
  the hyperparameters, is a new dictionary; nothing else has changed.
\<close>

definition start_world :: "('v, 'g) hpo_wrapper \<Rightarrow> pydict \<Rightarrow> ('v, 'g) world \<Rightarrow> ('v, 'g) world" where
  "start_world self hp s = s\<lparr>dicts := dicts s @ [dict_update (dicts s ! init_state self) hp]\<rparr>"


text \<open>A state dictionary read as values, and a state of values stored as new objects.\<close>

definition read_state :: "('v, 'g) world \<Rightarrow> addr \<Rightarrow> (string \<times> 'v tensor) list" where
  "read_state s d = map (\<lambda>(k, a). (k, tensors s ! a)) (dicts s ! d)"

definition write_state :: "(string \<times> 'v tensor) list \<Rightarrow> ('v, 'g) world \<Rightarrow> addr \<times> ('v, 'g) world" where
  "write_state st s =
     (length (dicts s),
      s\<lparr>tensors := tensors s @ map snd st,
        dicts := dicts s @ [zip (map fst st) [length (tensors s) ..< length (tensors s) + length st]]\<rparr>)"

text \<open>
  A batched tensor holds one slice per instance along its leading axis: its payload is
  the list of the slices.  Instance \<open>j\<close>'s view of a batched state:
\<close>

definition slice :: "nat \<Rightarrow> (string \<times> 'b list tensor) list \<Rightarrow> (string \<times> 'b) list" where
  "slice j bst = map (\<lambda>(k, t). (k, payload t ! j)) bst"

definition batched_state :: "nat \<Rightarrow> ('b list, 'g) world \<Rightarrow> addr \<Rightarrow> bool" where
  "batched_state n s d = list_all (\<lambda>(k, t). length (payload t) = n) (read_state s d)"

text \<open>
  Modelled from the spec: \<^verbatim>\<open>vmap\<close> of a traced step (spec 4.1, 4.2) is missing from the
  sources.  The traced step of one instance is a pure function \<open>f\<close>: from the random
  draw of the instance's batch slot and the instance's state it gives the new value
  under each key (the key set is the same before and after).  The batched function
  applies \<open>f\<close> to every slice on its own and stacks the results; random draws are
  taken per slot from the generator, which then advances.  A state whose tensors do not
  all have the leading dimension \<open>n\<close> is refused.
\<close>

definition vmap_apply ::
  "nat \<Rightarrow> ('r \<Rightarrow> (string \<times> 'b) list \<Rightarrow> string \<Rightarrow> 'b) \<Rightarrow> (nat \<Rightarrow> 'r)
     \<Rightarrow> (string \<times> 'b list tensor) list \<Rightarrow> (string \<times> 'b list tensor) list" where
  "vmap_apply n f draws bst =
     map (\<lambda>(k, t). (k, t\<lparr>payload := map (\<lambda>j. f (draws j) (slice j bst) k) [0..<n]\<rparr>)) bst"

definition batched ::
  "nat \<Rightarrow> ('r \<Rightarrow> (string \<times> 'b) list \<Rightarrow> string \<Rightarrow> 'b) \<Rightarrow> ('g \<Rightarrow> nat \<Rightarrow> 'r) \<Rightarrow> ('g \<Rightarrow> 'g)
     \<Rightarrow> ('b list, 'g) fn" where
  "batched n f draw advance d s =
     (if batched_state n s d
      then (let (d', s') = write_state (vmap_apply n f (draw (rng s)) (read_state s d)) s
            in (Inr d', s'\<lparr>rng := advance (rng s)\<rparr>))
      else (Inl (RuntimeError ''batch dimension''), s))"



text \<open>The tensor a call returned, and one entry along its leading axis.\<close>

definition returned :: "(error + addr) \<times> ('v, 'g) world \<Rightarrow> 'v option" where
  "returned r = (case r of (Inl e, s) \<Rightarrow> None | (Inr a, s) \<Rightarrow> Some (payload (tensors s ! a)))"

text \<open>
  A step function returns batched states when every state it returns has the leading
  dimension \<open>n\<close> on all its tensors; a fitness read returns an entry of its state when
  the reference it returns is a value of the dictionary it was given, left as it was.
\<close>

definition returns_batched :: "nat \<Rightarrow> ('b list, 'g) fn \<Rightarrow> bool" where
  "returns_batched n f = (\<forall>d s d' s'. f d s = (Inr d', s') \<longrightarrow> batched_state n s' d')"

definition returns_entry :: "('v, 'g) fn \<Rightarrow> bool" where
  "returns_entry fit =
     (\<forall>d s a t. fit d s = (Inr a, t) \<longrightarrow> a \<in> snd ` set (dicts s ! d) \<and> tensors t ! a = tensors s ! a)"

text \<open>The fitness read that returns the state's entry under one key.\<close>

definition read_entry :: "string \<Rightarrow> ('v, 'g) fn" where
  "read_entry key x s =
     (case map_of (dicts s ! x) key of
        None \<Rightarrow> (Inl (KeyError key), s)
      | Some a \<Rightarrow> (Inr a, s))"

text \<open>
  Modelled from the spec: \<^verbatim>\<open>load_state_dict\<close> of the monitor is missing from the
  sources; by spec 4.5 it installs the given tensors into the monitor object.  The
  monitor object is the dictionary of its tensor attributes.
\<close>

definition install_state_dict :: "addr \<Rightarrow> pydict \<Rightarrow> (unit, 'v, 'g) py" where
  "install_state_dict self fms s =
     (Inr (), s\<lparr>dicts := (dicts s)[self := dict_update (dicts s ! self) fms]\<rparr>)"

definition HPOFitnessMonitor_module :: "HPOFitnessMonitor \<Rightarrow> ('v, 'g) hpo_monitor" where
  "HPOFitnessMonitor_module mon =
     \<lparr>mon_state_dict = (\<lambda>s. dicts s ! buffers mon),
      mon_load_state_dict = install_state_dict (buffers mon),
      mon_tell_fitness = tell_fitness mon\<rparr>"


section \<open>A workflow in the style of the unit test\<close>

text \<open>
  Tensors of integers, nested to any depth.  The per-instance step of the example
  evaluates the population \<^verbatim>\<open>lb\<close> on \<^verbatim>\<open>sum(x * x)\<close>, stores the fitness and lets
  the monitor keep the minimum; it draws no random numbers (spec 8, property 5).
\<close>

datatype nd = Sc int | Ar "nd list"

fun nd_square :: "nd \<Rightarrow> nd" where
  "nd_square (Sc x) = Sc (x * x)"
| "nd_square (Ar xs) = Ar (map nd_square xs)"

fun nd_min :: "nd \<Rightarrow> nd \<Rightarrow> nd" where
  "nd_min (Sc x) (Sc y) = Sc (min x y)"
| "nd_min a b = a"

definition lookup :: "(string \<times> nd) list \<Rightarrow> string \<Rightarrow> nd" where
  "lookup st k = (case map_of st k of None \<Rightarrow> Sc 0 | Some x \<Rightarrow> x)"

definition ex_step :: "unit \<Rightarrow> (string \<times> nd) list \<Rightarrow> string \<Rightarrow> nd" where
  "ex_step r st k =
     (if k = ''algorithm.fit'' then nd_square (lookup st ''algorithm.lb'')
      else if k = ''monitor.best_fitness''
        then nd_min (nd_square (lookup st ''algorithm.lb'')) (lookup st ''monitor.best_fitness'')
      else lookup st k)"

text \<open>
  Two instances.  Tensors 0 to 2 are the batched initial state, 3 to 5 are
  hyperparameter tensors a caller supplies, 6 is a plain tensor, 7 is the monitor's own
  buffer and 8, 9 are the algorithm's own tensors.  Dictionary 0 is
  \<^verbatim>\<open>self.init_state\<close>, dictionary 1 holds the monitor's attributes and dictionary 2 is
  the workflow's state before batching, which shares tensor 7 with the monitor.
\<close>

definition ex_world :: "(nd list, nat) world" where
  "ex_world =
     \<lparr>tensors =
        [\<lparr>is_Parameter = True, payload = [Sc 3, Sc 3]\<rparr>,
         \<lparr>is_Parameter = False, payload = [Sc 0, Sc 0]\<rparr>,
         \<lparr>is_Parameter = False, payload = [Sc 100, Sc 100]\<rparr>,
         \<lparr>is_Parameter = True, payload = [Sc 1, Sc 2]\<rparr>,
         \<lparr>is_Parameter = True, payload = [Sc 5, Sc 2]\<rparr>,
         \<lparr>is_Parameter = True, payload = [Sc 1, Sc 7]\<rparr>,
         \<lparr>is_Parameter = False, payload = [Sc 1, Sc 2]\<rparr>,
         \<lparr>is_Parameter = False, payload = [Sc 100]\<rparr>,
         \<lparr>is_Parameter = True, payload = [Sc 3]\<rparr>,
         \<lparr>is_Parameter = False, payload = [Sc 0]\<rparr>],
      dicts =
        [[(''algorithm.lb'', 0), (''algorithm.fit'', 1), (''monitor.best_fitness'', 2)],
         [(''best_fitness'', 7)],
         [(''algorithm.lb'', 8), (''algorithm.fit'', 9), (''monitor.best_fitness'', 7)]],
      rng = 0\<rparr>"

definition ex_wrapper :: "(nd list, nat) fn \<Rightarrow> (nd list, nat) hpo_wrapper" where
  "ex_wrapper fit =
     \<lparr>iterations = 3, num_instances = 2, init_state = 0,
      workflow_step = batched 2 ex_step (\<lambda>g j. ()) Suc,
      workflow_init_step = batched 2 ex_step (\<lambda>g j. ()) Suc,
      monitor_fitness = fit\<rparr>"

text \<open>
  A monitor of the caller's: one buffer, and \<^verbatim>\<open>tell_fitness\<close> returns it as a vector
  of one objective, \<^verbatim>\<open>self.best_fitness.unsqueeze(0)\<close>.
\<close>

definition vector_monitor :: "(nd list, nat) hpo_monitor" where
  "vector_monitor =
     \<lparr>mon_state_dict = (\<lambda>s. dicts s ! 1),
      mon_load_state_dict = install_state_dict 1,
      mon_tell_fitness =
        (\<lambda>s. case getattr s 1 ''best_fitness'' of
                Inl e \<Rightarrow> (Inl e, s)
              | Inr a \<Rightarrow>
                  (let (a', s') = new_tensor
                         \<lparr>is_Parameter = False, payload = [Ar (payload (tensors s ! a))]\<rparr> s
                   in (Inr a', s')))\<rparr>"

text \<open>
  The example's core: the traced step of the example workflow is \<open>ex_step\<close>, its state
  before batching is dictionary 2 and its batched initial state dictionary 0; compiling
  returns the function it is given.
\<close>

definition ex_core :: "(nd list, nat) core" where
  "ex_core =
     \<lparr>use_state = (\<lambda>p. return \<lparr>sf_call = (\<lambda>d. return d), sf_init_state = (\<lambda>clone. return 2)\<rparr>),
      vmap = (\<lambda>st. return \<lparr>vf_call = batched 2 ex_step (\<lambda>g j. ()) Suc,
                              vf_init_state = (\<lambda>n. return 0)\<rparr>),
      jit = (\<lambda>f example. return f)\<rparr>"

definition ex_workflow :: "(nd list, nat) module \<Rightarrow> (nd list, nat) workflow" where
  "ex_workflow monitor =
     \<lparr>submodules = [(''algorithm'', Other_module [''step'']), (''monitor'', monitor)],
      step = return (),
      init_step_override = None\<rparr>"

text \<open>
  A workflow that overrides \<^verbatim>\<open>init_step\<close>.  Its \<^verbatim>\<open>step\<close> advances a counter (kept
  in the generator component of the store) by 1 and its \<^verbatim>\<open>init_step\<close> by 10, so the
  two can be told apart.  This core traces a procedure into the function that runs it
  and returns the state it was given; batching and compiling keep the function.
\<close>

definition tick :: "nat \<Rightarrow> (unit, 'v, nat) py" where
  "tick n s = (Inr (), s\<lparr>rng := rng s + n\<rparr>)"

definition run_core :: "(nd list, nat) core" where
  "run_core =
     \<lparr>use_state = (\<lambda>p. return \<lparr>sf_call = (\<lambda>d. bind p (\<lambda>u. return d)),
                                   sf_init_state = (\<lambda>clone. return 2)\<rparr>),
      vmap = (\<lambda>st. return \<lparr>vf_call = sf_call st, vf_init_state = (\<lambda>n. return 0)\<rparr>),
      jit = (\<lambda>f example. return f)\<rparr>"

definition ex_init_wrapper :: "(nd list, nat) hpo_wrapper" where
  "ex_init_wrapper =
     \<lparr>iterations = 3, num_instances = 2, init_state = 0,
      workflow_step = (\<lambda>d. bind (tick 1) (\<lambda>u. return d)),
      workflow_init_step = (\<lambda>d. bind (tick 10) (\<lambda>u. return d)),
      monitor_fitness =
        get_monitor_fitness (HPOFitnessMonitor_module \<lparr>multi_obj_indicator = None, buffers = 1\<rparr>)
          [(''monitor.best_fitness'', ''best_fitness'')]\<rparr>"

section \<open>Constructor and parameter filter\<close>

lemma lower_not_upper: "\<not> is_ascii_upper (lower_char c)"
  by (auto simp: lower_char_def is_ascii_upper_def)

lemma capitalize_second_not_upper:
  "capitalize str = a # b # rest \<Longrightarrow> \<not> is_ascii_upper b"
  by (cases str; cases "tl str") (auto simp: lower_not_upper)

lemma capitalize_unsupported: "capitalize str \<notin> set [''IGD'', ''HV'']"
proof
  assume "capitalize str \<in> set [''IGD'', ''HV'']"
  then consider "capitalize str = ''IGD''" | "capitalize str = ''HV''" by auto
  then show False
  proof cases
    case 1
    from capitalize_second_not_upper[OF 1] show False by (simp add: is_ascii_upper_def)
  next
    case 2
    from capitalize_second_not_upper[OF 2] show False by (simp add: is_ascii_upper_def)
  qed
qed

text \<open>
  Claim C10.  For every string \<open>str\<close>, constructing
  \<^verbatim>\<open>HPOFitnessMonitor(multi_obj_indicator=str)\<close> raises the assertion error of the
  membership check and leaves the store as it was: \<^verbatim>\<open>capitalize\<close> lower-cases every
  character after the first, so the normalised string is never \<^verbatim>\<open>"IGD"\<close> or
  \<^verbatim>\<open>"HV"\<close>.  With \<^verbatim>\<open>None\<close> the constructor returns a monitor whose indicator is
  \<^verbatim>\<open>None\<close>.
\<close>

theorem init_rejects_every_string:
  "HPOFitnessMonitor_init (PyStr str) s
     = (Inl (AssertionError (Indicator_unsupported (capitalize str))), s)
   \<and> fst (HPOFitnessMonitor_init PyNone s)
     = Inr \<lparr>multi_obj_indicator = None, buffers = length (dicts s)\<rparr>"
  using capitalize_unsupported[of str]
  by (simp add: HPOFitnessMonitor_init_def new_dict_def del: set_simps)

theorem init_rejects_every_string_witness:
  "fst (HPOFitnessMonitor_init (PyStr ''IGD'') (\<lparr>tensors = [], dicts = [], rng = ()\<rparr> :: (ftensor, unit) world))
     = Inl (AssertionError (Indicator_unsupported ''Igd''))
   \<and> fst (HPOFitnessMonitor_init (PyStr ''HV'') (\<lparr>tensors = [], dicts = [], rng = ()\<rparr> :: (ftensor, unit) world))
     = Inl (AssertionError (Indicator_unsupported ''Hv''))"
proof -
  have "capitalize ''IGD'' = ''Igd''" and "capitalize ''HV'' = ''Hv''"
    by code_simp+
  then show ?thesis
    using init_rejects_every_string[of "''IGD''" "\<lparr>tensors = [], dicts = [], rng = ()\<rparr> :: (ftensor, unit) world"]
          init_rejects_every_string[of "''HV''" "\<lparr>tensors = [], dicts = [], rng = ()\<rparr> :: (ftensor, unit) world"]
    by simp
qed

text \<open>
  Claim C7.  \<^verbatim>\<open>extract_parameters(state)\<close> returns exactly the items of \<open>state\<close>
  whose value is an \<^verbatim>\<open>nn.Parameter\<close>, in their order, each under its key with the
  same reference; looking a key up in the result gives the state's value when that is a
  parameter and nothing otherwise (the keys of a dictionary are distinct).
\<close>

theorem extract_parameters_exact:
  "set (extract_parameters s state) = {(k, v). (k, v) \<in> set state \<and> isinstance_Parameter s v}
   \<and> subseq (extract_parameters s state) state
   \<and> (distinct (map fst state) \<longrightarrow>
        map_of (extract_parameters s state) k
          = (case map_of state k of
               None \<Rightarrow> None
             | Some v \<Rightarrow> if isinstance_Parameter s v then Some v else None))"
proof -
  have "map_of (filter (\<lambda>(k, v). isinstance_Parameter s v) state) k
       = (case map_of state k of
            None \<Rightarrow> None
          | Some v \<Rightarrow> if isinstance_Parameter s v then Some v else None)"
    if "distinct (map fst state)" for state :: pydict
    using that by (induction state) (auto split: option.splits simp: rev_image_eqI)
  then show ?thesis
    by (auto simp: extract_parameters_def)
qed

theorem extract_parameters_exact_witness:
  "distinct (map fst [(''algorithm.lb'', 0), (''algorithm.pop'', 1), (''algorithm.ub'', 2::nat)])
   \<and> extract_parameters
         (\<lparr>tensors = [\<lparr>is_Parameter = True, payload = -10\<rparr>,
                      \<lparr>is_Parameter = False, payload = 0\<rparr>,
                      \<lparr>is_Parameter = True, payload = 10\<rparr>],
           dicts = [], rng = ()\<rparr> :: (int, unit) world)
         [(''algorithm.lb'', 0), (''algorithm.pop'', 1), (''algorithm.ub'', 2)]
       = [(''algorithm.lb'', 0), (''algorithm.ub'', 2)]
   \<and> map_of (extract_parameters
         (\<lparr>tensors = [\<lparr>is_Parameter = True, payload = -10\<rparr>,
                      \<lparr>is_Parameter = False, payload = 0\<rparr>,
                      \<lparr>is_Parameter = True, payload = 10\<rparr>],
           dicts = [], rng = ()\<rparr> :: (int, unit) world)
         [(''algorithm.lb'', 0), (''algorithm.pop'', 1), (''algorithm.ub'', 2)]) ''algorithm.pop''
       = None"
  using extract_parameters_exact[of
         "\<lparr>tensors = [\<lparr>is_Parameter = True, payload = -10\<rparr>,
                      \<lparr>is_Parameter = False, payload = 0\<rparr>,
                      \<lparr>is_Parameter = True, payload = 10\<rparr>],
           dicts = [], rng = ()\<rparr> :: (int, unit) world"
         "[(''algorithm.lb'', 0), (''algorithm.pop'', 1), (''algorithm.ub'', 2)]" "''algorithm.pop''"]
  by (simp add: extract_parameters_def isinstance_Parameter_def)

section \<open>The running minimum of HPOFitnessMonitor\<close>

lemma fl_le_refl: "a \<noteq> NaN \<Longrightarrow> fl_le a a"
  by (cases a) auto

lemma fl_le_trans: "fl_le a b \<Longrightarrow> fl_le b c \<Longrightarrow> fl_le a c"
  by (cases a; cases b; cases c) auto

lemma fl_le_total: "a \<noteq> NaN \<Longrightarrow> b \<noteq> NaN \<Longrightarrow> fl_le a b \<or> fl_le b a"
  by (cases a; cases b) auto

lemma fl_minimum_le:
  "a \<noteq> NaN \<Longrightarrow> b \<noteq> NaN \<Longrightarrow>
     fl_minimum a b \<noteq> NaN \<and> fl_le (fl_minimum a b) a \<and> fl_le (fl_minimum a b) b"
  using fl_le_total[of a b] by (auto simp: fl_minimum_def fl_le_refl)

lemma fold_minimum_le:
  "x \<noteq> NaN \<Longrightarrow> NaN \<notin> set xs \<Longrightarrow>
     fold fl_minimum xs x \<noteq> NaN \<and> fl_le (fold fl_minimum xs x) x
     \<and> (\<forall>y\<in>set xs. fl_le (fold fl_minimum xs x) y)"
proof (induction xs arbitrary: x)
  case Nil
  then show ?case by (simp add: fl_le_refl)
next
  case (Cons y ys)
  from Cons.prems have y: "y \<noteq> NaN" and ys: "NaN \<notin> set ys" by auto
  from fl_minimum_le[OF y Cons.prems(1)]
  have m: "fl_minimum y x \<noteq> NaN" "fl_le (fl_minimum y x) y" "fl_le (fl_minimum y x) x" by auto
  from Cons.IH[OF m(1) ys] m show ?case
    by (auto intro: fl_le_trans)
qed

lemma torch_min_le:
  assumes "elems f \<noteq> []" "NaN \<notin> set (elems f)"
  shows "\<exists>m. torch_min f = Inr m \<and> m \<noteq> NaN \<and> (\<forall>x\<in>set (elems f). fl_le m x)"
proof (cases "elems f")
  case Nil
  with assms show ?thesis by simp
next
  case (Cons x xs)
  with assms have "x \<noteq> NaN" "NaN \<notin> set xs" by auto
  from fold_minimum_le[OF this] Cons show ?thesis
    by (auto simp: torch_min_def)
qed

lemma told_setup:
  "buffers self < length (dicts s) \<Longrightarrow>
     told self (HPOFitnessMonitor_setup self s) = Some (scalar PosInf)
     \<and> buffers self < length (dicts (HPOFitnessMonitor_setup self s))"
  by (simp add: told_def tell_fitness_def getattr_def HPOFitnessMonitor_setup_def new_tensor_def
        setattr_def update_conv' scalar_def)

lemma pre_tell_told:
  assumes "buffers self < length (dicts s)" "told self s = Some (scalar b)"
    and "ndim f = 1" "torch_min f = Inr m"
  shows "\<exists>s'. pre_tell self f s = (Inr (), s') \<and> told self s' = Some (scalar (fl_minimum m b))
           \<and> buffers self < length (dicts s')"
  using assms
  by (auto simp: told_def tell_fitness_def getattr_def pre_tell_def new_tensor_def
        setattr_def update_conv' scalar_def torch_min2_def split: option.splits)


lemma pre_tells_told:
  assumes "buffers self < length (dicts s)" "told self s = Some (scalar b)" "b \<noteq> NaN"
    and "\<forall>f\<in>set fs. ndim f = 1 \<and> elems f \<noteq> [] \<and> NaN \<notin> set (elems f)"
  shows "\<exists>s' b'. pre_tells self fs s = (Inr (), s') \<and> told self s' = Some (scalar b')
           \<and> buffers self < length (dicts s') \<and> b' \<noteq> NaN \<and> fl_le b' b
           \<and> (\<forall>f\<in>set fs. \<forall>x\<in>set (elems f). fl_le b' x)"
  using assms
proof (induction fs arbitrary: s b)
  case Nil
  then show ?case by (auto simp: fl_le_refl)
next
  case (Cons f fs)
  from Cons.prems(4) have f: "ndim f = 1" "elems f \<noteq> []" "NaN \<notin> set (elems f)"
    and fs: "\<forall>f\<in>set fs. ndim f = 1 \<and> elems f \<noteq> [] \<and> NaN \<notin> set (elems f)"
    by auto
  from torch_min_le[OF f(2,3)] obtain m where
    m: "torch_min f = Inr m" "m \<noteq> NaN" "\<forall>x\<in>set (elems f). fl_le m x" by blast
  from pre_tell_told[OF Cons.prems(1,2) f(1) m(1)] obtain s1 where
    s1: "pre_tell self f s = (Inr (), s1)" "told self s1 = Some (scalar (fl_minimum m b))"
        "buffers self < length (dicts s1)" by blast
  from fl_minimum_le[OF m(2) Cons.prems(3)]
  have mb: "fl_minimum m b \<noteq> NaN" "fl_le (fl_minimum m b) m" "fl_le (fl_minimum m b) b" by auto
  from Cons.IH[OF s1(3) s1(2) mb(1) fs] obtain s' b' where
    r: "pre_tells self fs s1 = (Inr (), s')" "told self s' = Some (scalar b')"
       "buffers self < length (dicts s')" "b' \<noteq> NaN" "fl_le b' (fl_minimum m b)"
       "\<forall>f\<in>set fs. \<forall>x\<in>set (elems f). fl_le b' x" by blast
  have "fl_le b' b" using r(5) mb(3) by (rule fl_le_trans)
  moreover have "\<forall>x\<in>set (elems f). fl_le b' x"
    using r(5) mb(2) m(3) by (blast intro: fl_le_trans)
  ultimately show ?case using s1(1) r by auto
qed

text \<open>
  Claim C2 (as amended).  After \<^verbatim>\<open>setup()\<close>, \<^verbatim>\<open>tell_fitness()\<close> returns the scalar
  \<open>+inf\<close>.  After any sequence \<open>fs\<close> of \<^verbatim>\<open>pre_tell\<close> calls with non-empty
  one-dimensional tensors that hold no NaN, every call returns, the told value \<open>b1\<close> is
  below every fitness value seen, and one more such call with \<open>g\<close> replaces it by
  \<open>b2 = min (min g) b1\<close>, which is below \<open>b1\<close> and below every element of \<open>g\<close>:
  the told value never increases and is a lower bound of all values seen.
\<close>

theorem running_minimum:
  assumes "buffers self < length (dicts s)"
    and "\<forall>f\<in>set fs. ndim f = 1 \<and> elems f \<noteq> [] \<and> NaN \<notin> set (elems f)"
    and "ndim g = 1 \<and> elems g \<noteq> [] \<and> NaN \<notin> set (elems g)"
  shows "told self (HPOFitnessMonitor_setup self s) = Some (scalar PosInf)
    \<and> (\<exists>s1 b1 s2 b2 m.
          pre_tells self fs (HPOFitnessMonitor_setup self s) = (Inr (), s1)
        \<and> told self s1 = Some (scalar b1)
        \<and> (\<forall>f\<in>set fs. \<forall>x\<in>set (elems f). fl_le b1 x)
        \<and> pre_tell self g s1 = (Inr (), s2)
        \<and> told self s2 = Some (scalar b2)
        \<and> torch_min g = Inr m \<and> b2 = fl_minimum m b1
        \<and> fl_le b2 b1
        \<and> (\<forall>x\<in>set (elems g). fl_le b2 x))"
proof -
  from told_setup[OF assms(1)] have
    t0: "told self (HPOFitnessMonitor_setup self s) = Some (scalar PosInf)"
    and l0: "buffers self < length (dicts (HPOFitnessMonitor_setup self s))" by auto
  from pre_tells_told[OF l0 t0 _ assms(2)] obtain s1 b1 where
    r: "pre_tells self fs (HPOFitnessMonitor_setup self s) = (Inr (), s1)"
       "told self s1 = Some (scalar b1)" "buffers self < length (dicts s1)" "b1 \<noteq> NaN"
       "\<forall>f\<in>set fs. \<forall>x\<in>set (elems f). fl_le b1 x" by auto
  from assms(3) torch_min_le[of g] obtain m where
    m: "torch_min g = Inr m" "m \<noteq> NaN" "\<forall>x\<in>set (elems g). fl_le m x" by blast
  from pre_tell_told[OF r(3) r(2) _ m(1)] assms(3) obtain s2 where
    s2: "pre_tell self g s1 = (Inr (), s2)" "told self s2 = Some (scalar (fl_minimum m b1))" by blast
  from fl_minimum_le[OF m(2) r(4)]
  have mb: "fl_le (fl_minimum m b1) m" "fl_le (fl_minimum m b1) b1" by auto
  have "\<forall>x\<in>set (elems g). fl_le (fl_minimum m b1) x"
    using mb(1) m(3) by (blast intro: fl_le_trans)
  with t0 r s2 m(1) mb(2) show ?thesis by blast
qed

text \<open>The run \<open>[3, 1]\<close>, \<open>[2]\<close> ends with the told value \<open>1\<close>.\<close>

theorem running_minimum_witness:
  "told \<lparr>multi_obj_indicator = None, buffers = 0\<rparr>
     (snd (pre_tells \<lparr>multi_obj_indicator = None, buffers = 0\<rparr>
             [\<lparr>shape = [2], elems = [Finite 3, Finite 1]\<rparr>, \<lparr>shape = [1], elems = [Finite 2]\<rparr>]
             (HPOFitnessMonitor_setup \<lparr>multi_obj_indicator = None, buffers = 0\<rparr>
                (\<lparr>tensors = [], dicts = [[]], rng = ()\<rparr> :: (ftensor, unit) world))))
   = Some (scalar (Finite 1))"
proof -
  let ?self = "\<lparr>multi_obj_indicator = None, buffers = 0\<rparr>"
  let ?s = "\<lparr>tensors = [], dicts = [[]], rng = ()\<rparr> :: (ftensor, unit) world"
  let ?f = "\<lparr>shape = [2], elems = [Finite 3, Finite 1]\<rparr>"
  let ?g = "\<lparr>shape = [1], elems = [Finite 2]\<rparr>"
  have h1: "buffers ?self < length (dicts ?s)" by simp
  have h2: "\<forall>f\<in>set [?f]. ndim f = 1 \<and> elems f \<noteq> [] \<and> NaN \<notin> set (elems f)"
    by (simp add: ndim_def)
  have h3: "ndim ?g = 1 \<and> elems ?g \<noteq> [] \<and> NaN \<notin> set (elems ?g)"
    by (simp add: ndim_def)
  from running_minimum[OF h1 h2 h3] obtain s1 b1 s2 b2 m where
    r: "pre_tells ?self [?f] (HPOFitnessMonitor_setup ?self ?s) = (Inr (), s1)"
       "\<forall>f\<in>set [?f]. \<forall>x\<in>set (elems f). fl_le b1 x"
       "pre_tell ?self ?g s1 = (Inr (), s2)" "told ?self s2 = Some (scalar b2)"
       "torch_min ?g = Inr m" "b2 = fl_minimum m b1" "fl_le b2 b1" 
       "told ?self s1 = Some (scalar b1)" by blast
  have b1: "b1 = Finite 1"
    using r(1,8)
    by (auto simp: told_def tell_fitness_def getattr_def pre_tell_def new_tensor_def ndim_def
        setattr_def scalar_def torch_min2_def torch_min_def fl_minimum_def HPOFitnessMonitor_setup_def)
  have "m = Finite 2" using r(5) by (simp add: torch_min_def)
  with b1 r(6) have "b2 = Finite 1" by (simp add: fl_minimum_def)
  moreover have "pre_tells ?self [?f, ?g] (HPOFitnessMonitor_setup ?self ?s) = (Inr (), s2)"
    using r(1,3) by (simp split: prod.splits sum.splits)
  ultimately show ?thesis using r(4) by simp
qed

text \<open>
  With NaN among the fitness values the statement fails as it is written for every
  one-dimensional tensor: after \<open>[1]\<close> the told value is \<open>1\<close>, after \<open>[NaN]\<close> it is
  NaN, which is not below \<open>1\<close>.
\<close>

theorem running_minimum_counterexample:
  "told \<lparr>multi_obj_indicator = None, buffers = 0\<rparr>
     (snd (pre_tells \<lparr>multi_obj_indicator = None, buffers = 0\<rparr>
             [\<lparr>shape = [1], elems = [Finite 1]\<rparr>, \<lparr>shape = [1], elems = [NaN]\<rparr>]
             (HPOFitnessMonitor_setup \<lparr>multi_obj_indicator = None, buffers = 0\<rparr>
                (\<lparr>tensors = [], dicts = [[]], rng = ()\<rparr> :: (ftensor, unit) world))))
   = Some (scalar NaN)
   \<and> told \<lparr>multi_obj_indicator = None, buffers = 0\<rparr>
     (snd (pre_tells \<lparr>multi_obj_indicator = None, buffers = 0\<rparr>
             [\<lparr>shape = [1], elems = [Finite 1]\<rparr>]
             (HPOFitnessMonitor_setup \<lparr>multi_obj_indicator = None, buffers = 0\<rparr>
                (\<lparr>tensors = [], dicts = [[]], rng = ()\<rparr> :: (ftensor, unit) world))))
   = Some (scalar (Finite 1))
   \<and> \<not> fl_le NaN (Finite 1)"
  by (simp add: told_def tell_fitness_def getattr_def pre_tell_def new_tensor_def ndim_def
        setattr_def scalar_def torch_min2_def torch_min_def fl_minimum_def HPOFitnessMonitor_setup_def)

section \<open>Properties of evaluate\<close>

lemma check_hyper_parameters_fails:
  assumes "(k, v) \<in> set hp"
    and "map_of init k = None
         \<or> (\<exists>a. map_of init k = Some a \<and> \<not> isinstance_Parameter s a)
         \<or> \<not> isinstance_Parameter s v"
  shows "\<exists>a. check_hyper_parameters s init hp = Some (AssertionError a)"
  using assms
proof (induction hp)
  case Nil
  then show ?case by simp
next
  case (Cons kv hp)
  obtain k' v' where kv: "kv = (k', v')" by (cases kv)
  show ?case
  proof (cases "(k, v) = kv")
    case True
    with Cons.prems(2) kv show ?thesis by (auto split: option.splits)
  next
    case False
    with Cons.prems have "(k, v) \<in> set hp" by auto
    from Cons.IH[OF this Cons.prems(2)] kv show ?thesis by (auto split: option.splits)
  qed
qed

lemma evaluate_unfold:
  assumes "check_hyper_parameters s (dicts s ! init_state self) hp = None"
  shows "evaluate self hp s =
     (case workflow_init_step self (length (dicts s)) (start_world self hp s) of
        (Inl e, s2) \<Rightarrow> (Inl e, s2)
      | (Inr state1, s2) \<Rightarrow>
          (case repeat_step (nat (iterations self - 1)) (workflow_step self) state1 s2 of
             (Inl e, s3) \<Rightarrow> (Inl e, s3)
           | (Inr state2, s3) \<Rightarrow> monitor_fitness self state2 s3))"
  using assms
  by (simp add: evaluate_def start_world_def dict_copy_def new_dict_def dict_update_at_def)

lemma evaluate_Inr:
  assumes "evaluate self hp s = (Inr a, t)"
  shows "\<exists>d1 s1 d2 s2.
           workflow_init_step self (length (dicts s)) (start_world self hp s) = (Inr d1, s1)
         \<and> repeat_step (nat (iterations self - 1)) (workflow_step self) d1 s1 = (Inr d2, s2)
         \<and> monitor_fitness self d2 s2 = (Inr a, t)"
proof -
  from assms have c: "check_hyper_parameters s (dicts s ! init_state self) hp = None"
    by (auto simp: evaluate_def split: option.splits)
  from assms show ?thesis
    unfolding evaluate_unfold[OF c] by (auto split: prod.splits sum.splits)
qed

lemma repeat_step_chain:
  "repeat_step n f d s = (Inr d', s') \<longleftrightarrow>
     (\<exists>ps. length ps = Suc n \<and> ps ! 0 = (d, s) \<and> ps ! n = (d', s')
        \<and> (\<forall>i<n. f (fst (ps ! i)) (snd (ps ! i)) = (Inr (fst (ps ! Suc i)), snd (ps ! Suc i))))"
proof (induction n arbitrary: d s)
  case 0
  show ?case
  proof
    assume "repeat_step 0 f d s = (Inr d', s')"
    then have "length [(d, s)] = Suc 0 \<and> [(d, s)] ! 0 = (d, s) \<and> [(d, s)] ! 0 = (d', s')" by simp
    then show "\<exists>ps. length ps = Suc 0 \<and> ps ! 0 = (d, s) \<and> ps ! 0 = (d', s')
        \<and> (\<forall>i<0. f (fst (ps ! i)) (snd (ps ! i)) = (Inr (fst (ps ! Suc i)), snd (ps ! Suc i)))"
      by blast
  next
    assume "\<exists>ps. length ps = Suc 0 \<and> ps ! 0 = (d, s) \<and> ps ! 0 = (d', s')
        \<and> (\<forall>i<0. f (fst (ps ! i)) (snd (ps ! i)) = (Inr (fst (ps ! Suc i)), snd (ps ! Suc i)))"
    then show "repeat_step 0 f d s = (Inr d', s')" by auto
  qed
next
  case (Suc n)
  show ?case
  proof
    assume r: "repeat_step (Suc n) f d s = (Inr d', s')"
    then obtain d1 s1 where f1: "f d s = (Inr d1, s1)" and r1: "repeat_step n f d1 s1 = (Inr d', s')"
      by (auto split: prod.splits sum.splits)
    from r1 Suc.IH[of d1 s1] obtain ps where
      ps: "length ps = Suc n" "ps ! 0 = (d1, s1)" "ps ! n = (d', s')"
          "\<forall>i<n. f (fst (ps ! i)) (snd (ps ! i)) = (Inr (fst (ps ! Suc i)), snd (ps ! Suc i))"
      by blast
    let ?qs = "(d, s) # ps"
    have "\<forall>i<Suc n. f (fst (?qs ! i)) (snd (?qs ! i)) = (Inr (fst (?qs ! Suc i)), snd (?qs ! Suc i))"
    proof (intro allI impI)
      fix i assume "i < Suc n"
      then show "f (fst (?qs ! i)) (snd (?qs ! i)) = (Inr (fst (?qs ! Suc i)), snd (?qs ! Suc i))"
        using f1 ps(2,4) by (cases i) auto
    qed
    moreover have "length ?qs = Suc (Suc n)" "?qs ! 0 = (d, s)" "?qs ! Suc n = (d', s')"
      using ps by auto
    ultimately show "\<exists>ps. length ps = Suc (Suc n) \<and> ps ! 0 = (d, s) \<and> ps ! Suc n = (d', s')
        \<and> (\<forall>i<Suc n. f (fst (ps ! i)) (snd (ps ! i)) = (Inr (fst (ps ! Suc i)), snd (ps ! Suc i)))"
      by blast
  next
    assume "\<exists>ps. length ps = Suc (Suc n) \<and> ps ! 0 = (d, s) \<and> ps ! Suc n = (d', s')
        \<and> (\<forall>i<Suc n. f (fst (ps ! i)) (snd (ps ! i)) = (Inr (fst (ps ! Suc i)), snd (ps ! Suc i)))"
    then obtain qs where
      qs: "length qs = Suc (Suc n)" "qs ! 0 = (d, s)" "qs ! Suc n = (d', s')"
          "\<forall>i<Suc n. f (fst (qs ! i)) (snd (qs ! i)) = (Inr (fst (qs ! Suc i)), snd (qs ! Suc i))"
      by blast
    from qs(1) obtain q ps where qps: "qs = q # ps" by (cases qs) auto
    with qs(2) have q: "q = (d, s)" by simp
    from qs(4) have "f (fst (qs ! 0)) (snd (qs ! 0)) = (Inr (fst (qs ! Suc 0)), snd (qs ! Suc 0))"
      by blast
    with qps q have f1: "f d s = (Inr (fst (ps ! 0)), snd (ps ! 0))" by simp
    have "\<forall>i<n. f (fst (ps ! i)) (snd (ps ! i)) = (Inr (fst (ps ! Suc i)), snd (ps ! Suc i))"
    proof (intro allI impI)
      fix i assume "i < n"
      then have "Suc i < Suc n" by simp
      with qs(4) have "f (fst (qs ! Suc i)) (snd (qs ! Suc i)) = (Inr (fst (qs ! Suc (Suc i))), snd (qs ! Suc (Suc i)))"
        by blast
      with qps show "f (fst (ps ! i)) (snd (ps ! i)) = (Inr (fst (ps ! Suc i)), snd (ps ! Suc i))"
        by simp
    qed
    moreover have "length ps = Suc n" "ps ! 0 = (fst (ps ! 0), snd (ps ! 0))" "ps ! n = (d', s')"
      using qs(1,3) qps by auto
    ultimately have "repeat_step n f (fst (ps ! 0)) (snd (ps ! 0)) = (Inr d', s')"
      using Suc.IH[of "fst (ps ! 0)" "snd (ps ! 0)"] by blast
    with f1 show "repeat_step (Suc n) f d s = (Inr d', s')" by simp
  qed
qed

lemma map_of_dict_update: "map_of (dict_update d other) = map_of d ++ map_of (rev other)"
  unfolding dict_update_def
proof (induction other arbitrary: d)
  case Nil
  then show ?case by simp
next
  case (Cons kv other)
  obtain k v where kv: "kv = (k, v)" by (cases kv)
  show ?case
    by (simp add: kv Cons.IH update_conv' map_add_def fun_eq_iff split: option.splits)
qed

lemma evaluate_rollout_chain:
  assumes "check_hyper_parameters s (dicts s ! init_state self) hp = None"
  shows "(evaluate self hp s = (Inr fit, s') \<longleftrightarrow>
     (\<exists>ps. length ps = Suc (nat (iterations self - 1))
        \<and> workflow_init_step self (length (dicts s)) (start_world self hp s)
            = (Inr (fst (ps ! 0)), snd (ps ! 0))
        \<and> (\<forall>i<nat (iterations self - 1).
              workflow_step self (fst (ps ! i)) (snd (ps ! i))
                = (Inr (fst (ps ! Suc i)), snd (ps ! Suc i)))
        \<and> monitor_fitness self (fst (last ps)) (snd (last ps)) = (Inr fit, s')))
   \<and> dicts (start_world self hp s) ! length (dicts s) = dict_update (dicts s ! init_state self) hp
   \<and> map_of (dict_update (dicts s ! init_state self) hp)
       = map_of (dicts s ! init_state self) ++ map_of (rev hp)
   \<and> take (length (dicts s)) (dicts (start_world self hp s)) = dicts s"
proof -
  let ?n = "nat (iterations self - 1)"
  let ?s0 = "start_world self hp s"
  have "(evaluate self hp s = (Inr fit, s')) \<longleftrightarrow>
     (\<exists>ps. length ps = Suc ?n
        \<and> workflow_init_step self (length (dicts s)) ?s0 = (Inr (fst (ps ! 0)), snd (ps ! 0))
        \<and> (\<forall>i<?n. workflow_step self (fst (ps ! i)) (snd (ps ! i))
                = (Inr (fst (ps ! Suc i)), snd (ps ! Suc i)))
        \<and> monitor_fitness self (fst (last ps)) (snd (last ps)) = (Inr fit, s'))" (is "?L \<longleftrightarrow> ?R")
  proof
    assume ?L
    with evaluate_unfold[OF assms] obtain d1 s1 d2 s2 where
      i: "workflow_init_step self (length (dicts s)) ?s0 = (Inr d1, s1)"
      and r: "repeat_step ?n (workflow_step self) d1 s1 = (Inr d2, s2)"
      and m: "monitor_fitness self d2 s2 = (Inr fit, s')"
      by (auto split: prod.splits sum.splits)
    from r repeat_step_chain[of ?n "workflow_step self" d1 s1 d2 s2] obtain ps where
      ps: "length ps = Suc ?n" "ps ! 0 = (d1, s1)" "ps ! ?n = (d2, s2)"
          "\<forall>i<?n. workflow_step self (fst (ps ! i)) (snd (ps ! i))
                = (Inr (fst (ps ! Suc i)), snd (ps ! Suc i))"
      by blast
    from ps(1,3) have "last ps = (d2, s2)"
      by (metis diff_Suc_1 last_conv_nth length_0_conv nat.distinct(1))
    with i m ps show ?R by auto
  next
    assume ?R
    then obtain ps where
      ps: "length ps = Suc ?n"
          "workflow_init_step self (length (dicts s)) ?s0 = (Inr (fst (ps ! 0)), snd (ps ! 0))"
          "\<forall>i<?n. workflow_step self (fst (ps ! i)) (snd (ps ! i))
                = (Inr (fst (ps ! Suc i)), snd (ps ! Suc i))"
          "monitor_fitness self (fst (last ps)) (snd (last ps)) = (Inr fit, s')"
      by blast
    from ps(1) have l: "last ps = ps ! ?n"
      by (metis diff_Suc_1 last_conv_nth length_0_conv nat.distinct(1))
    have "repeat_step ?n (workflow_step self) (fst (ps ! 0)) (snd (ps ! 0))
            = (Inr (fst (ps ! ?n)), snd (ps ! ?n))"
      using repeat_step_chain[of ?n "workflow_step self" "fst (ps ! 0)" "snd (ps ! 0)"
              "fst (ps ! ?n)" "snd (ps ! ?n)"] ps(1,3)
      by auto
    with ps(2,4) l show ?L
      by (simp add: evaluate_unfold[OF assms])
  qed
  then show ?thesis
    by (simp add: start_world_def map_of_dict_update)
qed









section \<open>Properties of batched steps\<close>

lemma nth_zip_upt:
  "map (\<lambda>(k, a). (k, (xs @ ys) ! a)) (zip ks [length xs ..< length xs + length ys]) = zip ks ys"
  by (rule nth_equalityI) (auto simp: nth_append)

lemma read_write_state:
  "read_state (snd (write_state st s)) (fst (write_state st s)) = st"
proof -
  have "map (\<lambda>(k, a). (k, (tensors s @ map snd st) ! a))
          (zip (map fst st) [length (tensors s) ..< length (tensors s) + length (map snd st)])
        = zip (map fst st) (map snd st)"
    by (rule nth_zip_upt)
  then show ?thesis
    by (simp add: read_state_def write_state_def zip_map_fst_snd)
qed




lemma batched_result:
  assumes "batched n f draw advance d s = (Inr d1, s1)"
  shows "read_state s1 d1 = vmap_apply n f (draw (rng s)) (read_state s d)
         \<and> rng s1 = advance (rng s) \<and> batched_state n s d"
proof -
  from assms have b: "batched_state n s d"
    by (auto simp: batched_def split: if_splits)
  let ?st = "vmap_apply n f (draw (rng s)) (read_state s d)"
  from assms b have d1: "d1 = fst (write_state ?st s)"
    and s1: "s1 = (snd (write_state ?st s))\<lparr>rng := advance (rng s)\<rparr>"
    by (auto simp: batched_def split_beta Let_def)
  have "read_state s1 d1 = read_state (snd (write_state ?st s)) (fst (write_state ?st s))"
    by (simp add: d1 s1 read_state_def)
  with read_write_state[of ?st s] b s1 show ?thesis by simp
qed









lemma read_entry_pure: "pure_fn (read_entry key)"
  by (auto simp: pure_fn_def read_entry_def extends_def split: option.splits)

lemma read_entry_returns_entry: "returns_entry (read_entry key)"
  by (auto simp: returns_entry_def read_entry_def split: option.splits dest!: map_of_SomeD
      intro: rev_image_eqI)

lemma batched_returns_batched: "returns_batched n (batched n f draw advance)"
  unfolding returns_batched_def
proof (intro allI impI)
  fix d s d' s'
  assume "batched n f draw advance d s = (Inr d', s')"
  from batched_result[OF this]
  show "batched_state n s' d'"
    by (simp add: batched_state_def vmap_apply_def list_all_iff split_beta)
qed

lemma repeat_step_batched:
  assumes "returns_batched n f" "batched_state n s d" "repeat_step m f d s = (Inr d', s')"
  shows "batched_state n s' d'"
  using assms
proof (induction m arbitrary: d s)
  case 0
  then show ?case by simp
next
  case (Suc m)
  from Suc.prems(3) obtain d1 s1 where
    a: "f d s = (Inr d1, s1)" "repeat_step m f d1 s1 = (Inr d', s')"
    by (auto split: prod.splits sum.splits)
  from Suc.prems(1) a(1) have "batched_state n s1 d1" by (auto simp: returns_batched_def)
  from Suc.IH[OF Suc.prems(1) this a(2)] show ?case .
qed

lemma evaluate_shape:
  assumes "returns_batched n (workflow_init_step self)" "returns_batched n (workflow_step self)"
    "returns_entry (monitor_fitness self)" "evaluate self hp s = (Inr a, t)"
  shows "length (payload (tensors t ! a)) = n"
proof -
  from evaluate_Inr[OF assms(4)] obtain d1 s1 d2 s2 where
    r: "workflow_init_step self (length (dicts s)) (start_world self hp s) = (Inr d1, s1)"
       "repeat_step (nat (iterations self - 1)) (workflow_step self) d1 s1 = (Inr d2, s2)"
       "monitor_fitness self d2 s2 = (Inr a, t)" by blast
  from assms(1) r(1) have "batched_state n s1 d1" by (auto simp: returns_batched_def)
  from repeat_step_batched[OF assms(2) this r(2)] have b: "batched_state n s2 d2" .
  from assms(3) r(3) have "a \<in> snd ` set (dicts s2 ! d2)" "tensors t ! a = tensors s2 ! a"
    by (auto simp: returns_entry_def)
  with b show ?thesis
    by (auto simp: batched_state_def read_state_def list_all_iff)
qed

lemma ex_eval_fst:
  "fst (evaluate (ex_wrapper (read_entry ''monitor.best_fitness'')) [(''algorithm.lb'', 3)] ex_world) = Inr 18"
  "fst (evaluate (ex_wrapper (read_entry ''monitor.best_fitness'')) [(''algorithm.lb'', 4)] ex_world) = Inr 18"
  by code_simp+

lemma ex_check:
  "check_hyper_parameters ex_world (dicts ex_world ! init_state (ex_wrapper fit)) [(''algorithm.lb'', 3)] = None"
  by (simp add: ex_wrapper_def ex_world_def isinstance_Parameter_def)










section \<open>Properties of setup\<close>

lemma bind_Inr:
  "bind m f s = (Inr y, s') \<longleftrightarrow> (\<exists>x s1. m s = (Inr x, s1) \<and> f x s1 = (Inr y, s'))"
  by (auto simp: bind_def split: prod.splits sum.splits)

lemma return_Inr: "return x s = (Inr y, s') \<longleftrightarrow> (y = x \<and> s' = s)"
  by (auto simp: return_def)

lemma set_update_subset: "set (AList.update k v al) \<subseteq> insert (k, v) (set al)"
  by (induction al) auto

lemma monitor_keys_origin:
  "(k, sk) \<in> set (monitor_keys init ms acc) \<Longrightarrow>
     (k, sk) \<in> set acc \<or> (\<exists>v. (k, v) \<in> set init \<and> first_match v ms = Some sk)"
proof (induction init ms acc rule: monitor_keys.induct)
  case (1 ms acc)
  then show ?case by simp
next
  case (2 k' v' rest ms acc)
  show ?case
  proof (cases "first_match v' ms")
    case None
    with 2 show ?thesis by auto
  next
    case (Some sk')
    with 2 have "(k, sk) \<in> set (AList.update k' sk' acc)
        \<or> (\<exists>v. (k, v) \<in> set rest \<and> first_match v ms = Some sk)" by auto
    with set_update_subset[of k' sk' acc] Some show ?thesis by auto
  qed
qed

lemma first_match_Some:
  "first_match v ms = Some sk \<longleftrightarrow> (\<exists>pre post. ms = pre @ (sk, v) # post \<and> v \<notin> snd ` set pre)"
proof (induction ms)
  case Nil
  then show ?case by simp
next
  case (Cons p ms)
  obtain sk' sv' where p: "p = (sk', sv')" by (cases p)
  show ?case
  proof (cases "sv' = v")
    case True
    have "(\<exists>pre post. (sk', v) # ms = pre @ (sk, v) # post \<and> v \<notin> snd ` set pre) \<longleftrightarrow> sk' = sk"
    proof
      assume "\<exists>pre post. (sk', v) # ms = pre @ (sk, v) # post \<and> v \<notin> snd ` set pre"
      then obtain pre post where h: "(sk', v) # ms = pre @ (sk, v) # post" "v \<notin> snd ` set pre"
        by blast
      then show "sk' = sk" by (cases pre) (auto simp: image_iff)
    next
      assume "sk' = sk"
      then have "(sk', v) # ms = [] @ (sk, v) # ms \<and> v \<notin> snd ` set []" by simp
      then show "\<exists>pre post. (sk', v) # ms = pre @ (sk, v) # post \<and> v \<notin> snd ` set pre" by blast
    qed
    with True p show ?thesis by auto
  next
    case False
    have "(\<exists>pre post. (sk', sv') # ms = pre @ (sk, v) # post \<and> v \<notin> snd ` set pre)
      \<longleftrightarrow> (\<exists>pre post. ms = pre @ (sk, v) # post \<and> v \<notin> snd ` set pre)"
    proof
      assume "\<exists>pre post. (sk', sv') # ms = pre @ (sk, v) # post \<and> v \<notin> snd ` set pre"
      then obtain pre post where h: "(sk', sv') # ms = pre @ (sk, v) # post" "v \<notin> snd ` set pre"
        by blast
      with False obtain pre' where "pre = (sk', sv') # pre'" by (cases pre) auto
      with h have "ms = pre' @ (sk, v) # post \<and> v \<notin> snd ` set pre'" by auto
      then show "\<exists>pre post. ms = pre @ (sk, v) # post \<and> v \<notin> snd ` set pre" by blast
    next
      assume "\<exists>pre post. ms = pre @ (sk, v) # post \<and> v \<notin> snd ` set pre"
      then obtain pre post where h: "ms = pre @ (sk, v) # post" "v \<notin> snd ` set pre" by blast
      with False have "(sk', sv') # ms = ((sk', sv') # pre) @ (sk, v) # post
          \<and> v \<notin> snd ` set ((sk', sv') # pre)" by auto
      then show "\<exists>pre post. (sk', sv') # ms = pre @ (sk, v) # post \<and> v \<notin> snd ` set pre" by blast
    qed
    with False p Cons.IH show ?thesis by auto
  qed
qed

lemma first_match_None: "first_match v ms = None \<longleftrightarrow> v \<notin> snd ` set ms"
  by (induction ms) (auto simp: image_iff split: if_splits)

lemma update_fresh: "k \<notin> fst ` set al \<Longrightarrow> AList.update k v al = al @ [(k, v)]"
  by (induction al) (auto simp: image_iff)

lemma monitor_keys_length:
  "distinct (map fst init) \<Longrightarrow> fst ` set acc \<inter> fst ` set init = {} \<Longrightarrow>
     length (monitor_keys init ms acc)
       = length acc + length (filter (\<lambda>v. v \<in> snd ` set ms) (map snd init))
     \<and> fst ` set (monitor_keys init ms acc) \<subseteq> fst ` set acc \<union> fst ` set init"
proof (induction init ms acc rule: monitor_keys.induct)
  case (1 ms acc)
  then show ?case by simp
next
  case (2 k v rest ms acc)
  from "2.prems" have d: "distinct (map fst rest)" and k: "k \<notin> fst ` set acc"
    and kr: "k \<notin> fst ` set rest" and dj: "fst ` set acc \<inter> fst ` set rest = {}"
    by (auto simp: image_iff)
  show ?case
  proof (cases "first_match v ms")
    case None
    with "2.IH"(1)[OF None d dj] first_match_None[of v ms] show ?thesis by auto
  next
    case (Some sk)
    have u: "AList.update k sk acc = acc @ [(k, sk)]" by (rule update_fresh[OF k])
    have dj': "fst ` set (AList.update k sk acc) \<inter> fst ` set rest = {}"
      using dj kr by (auto simp: u)
    from Some first_match_None[of v ms] have "v \<in> snd ` set ms" by auto
    with "2.IH"(2)[OF Some d dj'] Some show ?thesis by (auto simp: u)
  qed
qed

lemma filter_card:
  "distinct vs \<Longrightarrow> length (filter (\<lambda>v. v \<in> A) vs) = card (set vs \<inter> A)"
proof -
  assume "distinct vs"
  then have "distinct (filter (\<lambda>v. v \<in> A) vs)" by simp
  then have "length (filter (\<lambda>v. v \<in> A) vs) = card (set (filter (\<lambda>v. v \<in> A) vs))"
    by (rule distinct_card[symmetric])
  also have "set (filter (\<lambda>v. v \<in> A) vs) = set vs \<inter> A" by auto
  finally show ?thesis .
qed

lemma card_inter_eq_length:
  "card (X \<inter> set ys) = length ys \<longleftrightarrow> distinct ys \<and> set ys \<subseteq> X"
proof
  assume h: "card (X \<inter> set ys) = length ys"
  have "card (X \<inter> set ys) \<le> card (set ys)" by (simp add: card_mono)
  moreover have "card (set ys) \<le> length ys" by (rule card_length)
  ultimately have c: "card (set ys) = length ys" and e: "card (X \<inter> set ys) = card (set ys)"
    using h by auto
  from c have "distinct ys" by (simp add: card_distinct)
  moreover from e have "X \<inter> set ys = set ys"
    by (intro card_subset_eq) auto
  ultimately show "distinct ys \<and> set ys \<subseteq> X" by auto
next
  assume "distinct ys \<and> set ys \<subseteq> X"
  then have "X \<inter> set ys = set ys" "card (set ys) = length ys"
    by (auto simp: distinct_card)
  then show "card (X \<inter> set ys) = length ys" by simp
qed

lemma monitor_keys_complete:
  assumes "distinct (map fst init)" "distinct (map snd init)"
  shows "length (monitor_keys init ms []) = length ms
          \<longleftrightarrow> distinct (map snd ms) \<and> snd ` set ms \<subseteq> snd ` set init"
proof -
  from monitor_keys_length[OF assms(1), of "[]" ms]
  have "length (monitor_keys init ms []) = length (filter (\<lambda>v. v \<in> snd ` set ms) (map snd init))"
    by simp
  also have "\<dots> = card (set (map snd init) \<inter> snd ` set ms)"
    by (rule filter_card[OF assms(2)])
  finally have "length (monitor_keys init ms []) = card (set (map snd init) \<inter> set (map snd ms))"
    by simp
  with card_inter_eq_length[of "set (map snd init)" "map snd ms"] show ?thesis by simp
qed

section \<open>Batch independence\<close>



section \<open>The rollout\<close>

text \<open>
  Claim C3 (as amended).  When the hyperparameters pass the check, \<^verbatim>\<open>evaluate\<close> returns
  \<open>fit\<close> in the store \<open>s'\<close> exactly when there is a chain \<open>ps\<close> of
  \<open>1 + (iterations - 1)\<close> states: the first is what the first-step function returns on
  the copy of the initial state updated with the hyperparameters (a new dictionary,
  whose entries are those of the initial state overridden by the hyperparameters; the
  dictionaries that existed are untouched), each next one is what the ordinary step
  returns on the one before, and the fitness read applied to the last returns \<open>fit\<close>
  and \<open>s'\<close>.  When both step functions return states that are batched over
  \<^verbatim>\<open>num_instances\<close> and the fitness read returns an entry of the state it is given, the
  returned tensor has the leading dimension \<^verbatim>\<open>num_instances\<close>.
\<close>

theorem evaluate_rollout:
  assumes "check_hyper_parameters s (dicts s ! init_state self) hp = None"
  shows "(evaluate self hp s = (Inr fit, s') \<longleftrightarrow>
     (\<exists>ps. length ps = Suc (nat (iterations self - 1))
        \<and> workflow_init_step self (length (dicts s)) (start_world self hp s)
            = (Inr (fst (ps ! 0)), snd (ps ! 0))
        \<and> (\<forall>i<nat (iterations self - 1).
              workflow_step self (fst (ps ! i)) (snd (ps ! i))
                = (Inr (fst (ps ! Suc i)), snd (ps ! Suc i)))
        \<and> monitor_fitness self (fst (last ps)) (snd (last ps)) = (Inr fit, s')))
   \<and> dicts (start_world self hp s) ! length (dicts s) = dict_update (dicts s ! init_state self) hp
   \<and> map_of (dict_update (dicts s ! init_state self) hp)
       = map_of (dicts s ! init_state self) ++ map_of (rev hp)
   \<and> take (length (dicts s)) (dicts (start_world self hp s)) = dicts s
   \<and> (returns_batched (nat (num_instances self)) (workflow_init_step self)
        \<and> returns_batched (nat (num_instances self)) (workflow_step self)
        \<and> returns_entry (monitor_fitness self)
        \<and> evaluate self hp s = (Inr fit, s')
        \<longrightarrow> length (payload (tensors s' ! fit)) = nat (num_instances self))"
proof -
  note r = evaluate_rollout_chain[OF assms, of fit s']
  have sh: "returns_batched (nat (num_instances self)) (workflow_init_step self)
        \<and> returns_batched (nat (num_instances self)) (workflow_step self)
        \<and> returns_entry (monitor_fitness self)
        \<and> evaluate self hp s = (Inr fit, s')
        \<longrightarrow> length (payload (tensors s' ! fit)) = nat (num_instances self)"
    using evaluate_shape[of "nat (num_instances self)" self hp s fit s'] by simp
  show ?thesis
    by (intro conjI) (rule r[THEN conjunct1] r[THEN conjunct2, THEN conjunct1]
        r[THEN conjunct2, THEN conjunct2, THEN conjunct1]
        r[THEN conjunct2, THEN conjunct2, THEN conjunct2] sh)+
qed

text \<open>
  The example with \<^verbatim>\<open>iterations = 3\<close>: one first step, two more steps, and the read of
  \<^verbatim>\<open>monitor.best_fitness\<close>; the result has two entries.
\<close>

theorem evaluate_rollout_witness:
  "fst (evaluate (ex_wrapper (read_entry ''monitor.best_fitness'')) [(''algorithm.lb'', 3)] ex_world)
     = Inr 18
   \<and> length (payload (tensors (snd (evaluate (ex_wrapper (read_entry ''monitor.best_fitness''))
                                      [(''algorithm.lb'', 3)] ex_world)) ! 18)) = 2
   \<and> (\<exists>ps. length ps = 3
        \<and> batched 2 ex_step (\<lambda>g j. ()) Suc 3
             (start_world (ex_wrapper (read_entry ''monitor.best_fitness''))
                [(''algorithm.lb'', 3)] ex_world)
            = (Inr (fst (ps ! 0)), snd (ps ! 0))
        \<and> batched 2 ex_step (\<lambda>g j. ()) Suc (fst (ps ! 0)) (snd (ps ! 0))
            = (Inr (fst (ps ! 1)), snd (ps ! 1))
        \<and> batched 2 ex_step (\<lambda>g j. ()) Suc (fst (ps ! 1)) (snd (ps ! 1))
            = (Inr (fst (ps ! 2)), snd (ps ! 2))
        \<and> read_entry ''monitor.best_fitness'' (fst (ps ! 2)) (snd (ps ! 2))
            = evaluate (ex_wrapper (read_entry ''monitor.best_fitness''))
                [(''algorithm.lb'', 3)] ex_world)"
proof -
  let ?w = "ex_wrapper (read_entry ''monitor.best_fitness'')"
  let ?hp = "[(''algorithm.lb'', 3)]"
  let ?r = "evaluate ?w ?hp ex_world"
  have c: "check_hyper_parameters ex_world (dicts ex_world ! init_state ?w) ?hp = None"
    by (rule ex_check)
  have e: "?r = (Inr 18, snd ?r)"
    using ex_eval_fst(1) by (simp add: prod_eq_iff)
  have b: "returns_batched (nat (num_instances ?w)) (workflow_init_step ?w)"
       "returns_batched (nat (num_instances ?w)) (workflow_step ?w)"
       "returns_entry (monitor_fitness ?w)"
    by (simp_all add: ex_wrapper_def numeral_2_eq_2 batched_returns_batched read_entry_returns_entry)
  note t = evaluate_rollout[OF c, of 18 "snd ?r"]
  note sh = t[THEN conjunct2, THEN conjunct2, THEN conjunct2, THEN conjunct2]
  from b e have "returns_batched (nat (num_instances ?w)) (workflow_init_step ?w)
        \<and> returns_batched (nat (num_instances ?w)) (workflow_step ?w)
        \<and> returns_entry (monitor_fitness ?w)
        \<and> ?r = (Inr 18, snd ?r)" by (intro conjI)
  with sh have len: "length (payload (tensors (snd ?r) ! 18)) = nat (num_instances ?w)"
    by (rule mp)
  from iffD1[OF t[THEN conjunct1] e] obtain ps where
    pc: "length ps = Suc (nat (iterations ?w - 1))
       \<and> workflow_init_step ?w (length (dicts ex_world)) (start_world ?w ?hp ex_world)
            = (Inr (fst (ps ! 0)), snd (ps ! 0))
       \<and> (\<forall>i<nat (iterations ?w - 1).
              workflow_step ?w (fst (ps ! i)) (snd (ps ! i))
                = (Inr (fst (ps ! Suc i)), snd (ps ! Suc i)))
       \<and> monitor_fitness ?w (fst (last ps)) (snd (last ps)) = (Inr 18, snd ?r)" ..
  note ps = pc[THEN conjunct1] pc[THEN conjunct2, THEN conjunct1]
    pc[THEN conjunct2, THEN conjunct2, THEN conjunct1]
    pc[THEN conjunct2, THEN conjunct2, THEN conjunct2]
  have n: "nat (iterations ?w - 1) = 2" "nat (num_instances ?w) = 2"
    "length (dicts ex_world) = 3"
    by (simp_all add: ex_wrapper_def ex_world_def)
  from ps(1) n have l3: "length ps = 3" by simp
  then have last: "last ps = ps ! 2"
    by (cases ps) (auto simp: last_conv_nth)
  from ps(3) n have s0: "workflow_step ?w (fst (ps ! 0)) (snd (ps ! 0)) = (Inr (fst (ps ! 1)), snd (ps ! 1))"
    and s1: "workflow_step ?w (fst (ps ! 1)) (snd (ps ! 1)) = (Inr (fst (ps ! 2)), snd (ps ! 2))"
    by (auto simp: numeral_2_eq_2)
  have m: "monitor_fitness ?w (fst (last ps)) (snd (last ps)) = ?r"
    by (rule trans[OF ps(4) e[symmetric]])
  have wf: "workflow_init_step ?w = batched 2 ex_step (\<lambda>g j. ()) Suc"
    "workflow_step ?w = batched 2 ex_step (\<lambda>g j. ()) Suc"
    "monitor_fitness ?w = read_entry ''monitor.best_fitness''"
    by (simp_all add: ex_wrapper_def)
  note i0 = ps(2)[unfolded wf n(3)]
  note t0 = s0[unfolded wf]
  note t1 = s1[unfolded wf]
  note m' = m[unfolded wf last]
  have ex: "\<exists>ps. length ps = 3
        \<and> batched 2 ex_step (\<lambda>g j. ()) Suc 3 (start_world ?w ?hp ex_world)
            = (Inr (fst (ps ! 0)), snd (ps ! 0))
        \<and> batched 2 ex_step (\<lambda>g j. ()) Suc (fst (ps ! 0)) (snd (ps ! 0))
            = (Inr (fst (ps ! 1)), snd (ps ! 1))
        \<and> batched 2 ex_step (\<lambda>g j. ()) Suc (fst (ps ! 1)) (snd (ps ! 1))
            = (Inr (fst (ps ! 2)), snd (ps ! 2))
        \<and> read_entry ''monitor.best_fitness'' (fst (ps ! 2)) (snd (ps ! 2)) = ?r"
    by (rule exI[of _ ps]) (intro conjI l3 i0 t0 t1 m')
  show ?thesis
    by (intro conjI) (rule ex_eval_fst(1) len[unfolded n(2)] ex)+
qed

text \<open>
  With the monitor whose \<^verbatim>\<open>tell_fitness\<close> returns \<^verbatim>\<open>self.best_fitness.unsqueeze(0)\<close>
  the returned tensor has the shape \<open>[1, 2]\<close> for two instances: its leading dimension
  is 1.
\<close>

theorem evaluate_rollout_counterexample:
  "check_hyper_parameters ex_world (dicts ex_world ! 0) [(''algorithm.lb'', 3)] = None
   \<and> map_option length (returned (evaluate
      (ex_wrapper (get_monitor_fitness vector_monitor [(''monitor.best_fitness'', ''best_fitness'')]))
      [(''algorithm.lb'', 3)] ex_world)) = Some 1
   \<and> num_instances
        (ex_wrapper (get_monitor_fitness vector_monitor [(''monitor.best_fitness'', ''best_fitness'')]))
       = 2"
proof -
  have "map_option length (returned (evaluate
      (ex_wrapper (get_monitor_fitness vector_monitor [(''monitor.best_fitness'', ''best_fitness'')]))
      [(''algorithm.lb'', 3)] ex_world)) = Some 1"
    by code_simp
  then show ?thesis
    by (simp add: ex_wrapper_def ex_world_def isinstance_Parameter_def)
qed

section \<open>The resolver\<close>

text \<open>
  Claim C4 (as amended).  In \<^verbatim>\<open>setup\<close>, with \<open>init\<close> the items of the workflow's state
  and \<open>ms\<close> the monitor's state dictionary: a state key \<open>k\<close> is mapped to a monitor
  name \<open>sk\<close> only when the two hold the same object \<open>v\<close>, and \<open>sk\<close> is the first
  name of \<open>ms\<close> that holds it (the contents of the tensors are never read);
  \<^verbatim>\<open>setup\<close> raises the assertion error whenever the number of mappings differs from
  the number of monitor entries, and otherwise the resolver returns the map.  When no
  object is held under two keys of the workflow's state, the numbers differ exactly
  when some monitor buffer is not among the state's objects or one object is held under
  two names of the monitor state.
\<close>

theorem resolver_by_identity:
  assumes "map_of (submodules workflow) ''monitor'' = Some (HPOMonitor_instance monitor)"
    and "use_state core (step workflow) s = (Inr st, s1)"
    and "sf_init_state st False s1 = (Inr nb, s2)"
  shows "(let init = dicts s2 ! nb; ms = mon_state_dict monitor s; mk = monitor_keys init ms []
          in (\<forall>k sk. (k, sk) \<in> set mk \<longrightarrow>
                (\<exists>v pre post. (k, v) \<in> set init \<and> ms = pre @ (sk, v) # post \<and> v \<notin> snd ` set pre))
           \<and> (length mk \<noteq> length ms \<longrightarrow>
                HPOProblemWrapper_setup core self workflow s
                  = (Inl (AssertionError (Monitor_keys_mismatch (length ms) (length mk))), s2))
           \<and> (length mk = length ms \<longrightarrow> resolve_monitor_keys init ms = Inr mk)
           \<and> (distinct (map fst init) \<and> distinct (map snd init) \<longrightarrow>
                (length mk \<noteq> length ms
                  \<longleftrightarrow> \<not> snd ` set ms \<subseteq> snd ` set init \<or> \<not> distinct (map snd ms))))"
proof -
  let ?init = "dicts s2 ! nb"
  let ?ms = "mon_state_dict monitor s"
  let ?mk = "monitor_keys ?init ?ms []"
  have a: "\<forall>k sk. (k, sk) \<in> set ?mk \<longrightarrow>
      (\<exists>v pre post. (k, v) \<in> set ?init \<and> ?ms = pre @ (sk, v) # post \<and> v \<notin> snd ` set pre)"
  proof (intro allI impI)
    fix k sk assume "(k, sk) \<in> set ?mk"
    from monitor_keys_origin[OF this] obtain v where
      "(k, v) \<in> set ?init" "first_match v ?ms = Some sk" by auto
    then show "\<exists>v pre post. (k, v) \<in> set ?init \<and> ?ms = pre @ (sk, v) # post \<and> v \<notin> snd ` set pre"
      by (auto simp: first_match_Some)
  qed
  have b: "length ?mk \<noteq> length ?ms \<longrightarrow>
      HPOProblemWrapper_setup core self workflow s
        = (Inl (AssertionError (Monitor_keys_mismatch (length ?ms) (length ?mk))), s2)"
    using assms
    by (simp add: HPOProblemWrapper_setup_def get_submodule_def bind_def resolve_monitor_keys_def
        Let_def)
  have c: "length ?mk = length ?ms \<longrightarrow> resolve_monitor_keys ?init ?ms = Inr ?mk"
    by (simp add: resolve_monitor_keys_def)
  have d: "distinct (map fst ?init) \<and> distinct (map snd ?init) \<longrightarrow>
                (length ?mk \<noteq> length ?ms
                  \<longleftrightarrow> \<not> snd ` set ?ms \<subseteq> snd ` set ?init \<or> \<not> distinct (map snd ?ms))"
    using monitor_keys_complete[of ?init ?ms] by blast
  from a b c d show ?thesis by (simp only: Let_def)
qed

text \<open>
  In the example a monitor with a second buffer that the workflow's state does not
  hold makes \<^verbatim>\<open>setup\<close> fail; with the one shared buffer the map is resolved.
\<close>

theorem resolver_by_identity_witness:
  "HPOProblemWrapper_setup ex_core \<lparr>iterations = 3, num_instances = 2\<rparr>
     (ex_workflow (HPOMonitor_instance
        (HPOFitnessMonitor_module \<lparr>multi_obj_indicator = None, buffers = 1\<rparr>)))
     (ex_world\<lparr>dicts := (dicts ex_world)[1 := [(''best_fitness'', 7), (''history'', 6)]]\<rparr>)
   = (Inl (AssertionError (Monitor_keys_mismatch 2 1)),
      ex_world\<lparr>dicts := (dicts ex_world)[1 := [(''best_fitness'', 7), (''history'', 6)]]\<rparr>)
   \<and> resolve_monitor_keys (dicts ex_world ! 2) (dicts ex_world ! 1)
       = Inr [(''monitor.best_fitness'', ''best_fitness'')]"
proof -
  let ?mon = "HPOFitnessMonitor_module \<lparr>multi_obj_indicator = None, buffers = 1\<rparr> :: (nd list, nat) hpo_monitor"
  let ?wf = "ex_workflow (HPOMonitor_instance ?mon)"
  let ?s = "ex_world\<lparr>dicts := (dicts ex_world)[1 := [(''best_fitness'', 7), (''history'', 6)]]\<rparr>"
  let ?st = "\<lparr>sf_call = (\<lambda>d. return d), sf_init_state = (\<lambda>clone. return 2)\<rparr> :: (nd list, nat) state_fn"
  have h1: "map_of (submodules ?wf) ''monitor'' = Some (HPOMonitor_instance ?mon)"
    by (simp add: ex_workflow_def)
  have h2: "use_state ex_core (step ?wf) ?s = (Inr ?st, ?s)"
    and h2': "use_state ex_core (step ?wf) ex_world = (Inr ?st, ex_world)"
    by (simp_all add: ex_core_def return_def)
  have h3: "sf_init_state ?st False ?s = (Inr 2, ?s)"
    and h3': "sf_init_state ?st False ex_world = (Inr 2, ex_world)"
    by (simp_all add: return_def)
  have mk: "monitor_keys (dicts ?s ! 2) (mon_state_dict ?mon ?s) [] = [(''monitor.best_fitness'', ''best_fitness'')]"
    "mon_state_dict ?mon ?s = [(''best_fitness'', 7), (''history'', 6)]"
    by (simp_all add: ex_world_def HPOFitnessMonitor_module_def)
  have mk': "monitor_keys (dicts ex_world ! 2) (mon_state_dict ?mon ex_world) [] = [(''monitor.best_fitness'', ''best_fitness'')]"
    "mon_state_dict ?mon ex_world = [(''best_fitness'', 7)]" "mon_state_dict ?mon ex_world = dicts ex_world ! 1"
    by (simp_all add: ex_world_def HPOFitnessMonitor_module_def)
  from resolver_by_identity[OF h1 h2 h3, of "\<lparr>iterations = 3, num_instances = 2\<rparr>"] mk
  have "HPOProblemWrapper_setup ex_core \<lparr>iterations = 3, num_instances = 2\<rparr> ?wf ?s
          = (Inl (AssertionError (Monitor_keys_mismatch 2 1)), ?s)"
    by (simp add: Let_def)
  moreover
  from resolver_by_identity[OF h1 h2' h3', of "\<lparr>iterations = 3, num_instances = 2\<rparr>"] mk'(1,2)
  have "resolve_monitor_keys (dicts ex_world ! 2) (mon_state_dict ?mon ex_world)
          = Inr [(''monitor.best_fitness'', ''best_fitness'')]"
    by (simp add: Let_def)
  ultimately show ?thesis using mk'(3) by simp
qed

text \<open>
  The assertion compares sizes only.  When the workflow's state holds the monitor's
  first buffer under two keys, two mappings are found for two monitor entries and the
  assertion passes, although the monitor's second buffer (object 1) is not reachable.
\<close>

theorem resolver_by_identity_counterexample:
  "resolve_monitor_keys
     [(''algorithm.fit'', 0), (''monitor.best_fitness'', 0)]
     [(''best_fitness'', 0), (''history'', 1)]
   = Inr [(''algorithm.fit'', ''best_fitness''), (''monitor.best_fitness'', ''best_fitness'')]
   \<and> (1::nat) \<notin> snd ` set [(''algorithm.fit'', 0::nat), (''monitor.best_fitness'', 0)]"
  by (simp add: resolve_monitor_keys_def)

section \<open>Validation of the hyperparameters\<close>

text \<open>
  Claim C5.  If some supplied entry \<open>(k, v)\<close> has a key that is not in the stored
  initial state, or the stored value under \<open>k\<close> is not an \<^verbatim>\<open>nn.Parameter\<close>, or \<open>v\<close>
  is not one, then \<^verbatim>\<open>evaluate\<close> raises an assertion error and the store is as before
  the call, whatever the three compiled functions are: none of them is called, and not
  even the copy of the initial state is made.
\<close>

theorem evaluate_validates_first:
  assumes "(k, v) \<in> set hyper_parameters"
    and "map_of (dicts s ! init_state self) k = None
         \<or> (\<exists>a. map_of (dicts s ! init_state self) k = Some a \<and> \<not> isinstance_Parameter s a)
         \<or> \<not> isinstance_Parameter s v"
  shows "\<exists>a. \<forall>f g h.
           evaluate (self\<lparr>workflow_init_step := f, workflow_step := g, monitor_fitness := h\<rparr>)
             hyper_parameters s = (Inl (AssertionError a), s)"
proof -
  from check_hyper_parameters_fails[OF assms] obtain a where
    "check_hyper_parameters s (dicts s ! init_state self) hyper_parameters = Some (AssertionError a)"
    by blast
  then have "\<forall>f g h.
           evaluate (self\<lparr>workflow_init_step := f, workflow_step := g, monitor_fitness := h\<rparr>)
             hyper_parameters s = (Inl (AssertionError a), s)"
    by (simp add: evaluate_def)
  then show ?thesis ..
qed

text \<open>Supplying a value for the buffer \<^verbatim>\<open>algorithm.fit\<close> is refused.\<close>

theorem evaluate_validates_first_witness:
  "evaluate (ex_wrapper (read_entry ''monitor.best_fitness''))
     [(''algorithm.lb'', 3), (''algorithm.fit'', 6)] ex_world
   = (Inl (AssertionError (Not_a_Parameter ''algorithm.fit'')), ex_world)"
proof -
  let ?w = "ex_wrapper (read_entry ''monitor.best_fitness'')"
  let ?hp = "[(''algorithm.lb'', 3), (''algorithm.fit'', 6)]"
  have h1: "(''algorithm.fit'', 6) \<in> set ?hp" by simp
  have h2: "map_of (dicts ex_world ! init_state ?w) ''algorithm.fit'' = None
         \<or> (\<exists>a. map_of (dicts ex_world ! init_state ?w) ''algorithm.fit'' = Some a
                \<and> \<not> isinstance_Parameter ex_world a)
         \<or> \<not> isinstance_Parameter ex_world 6"
    by (simp add: ex_wrapper_def ex_world_def isinstance_Parameter_def)
  from evaluate_validates_first[OF h1 h2] obtain a where
    a: "\<forall>f g h. evaluate (?w\<lparr>workflow_init_step := f, workflow_step := g, monitor_fitness := h\<rparr>)
             ?hp ex_world = (Inl (AssertionError a), ex_world)" by blast
  have "?w\<lparr>workflow_init_step := workflow_init_step ?w, workflow_step := workflow_step ?w,
           monitor_fitness := monitor_fitness ?w\<rparr> = ?w" by simp
  with a have e: "evaluate ?w ?hp ex_world = (Inl (AssertionError a), ex_world)" by metis
  have "fst (evaluate ?w ?hp ex_world) = Inl (AssertionError (Not_a_Parameter ''algorithm.fit''))"
    by code_simp
  with e show ?thesis by simp
qed

section \<open>The first step\<close>

text \<open>
  Claim C6.  \<^verbatim>\<open>setup\<close> returns a wrapper \<open>w\<close> exactly when the monitor is an
  \<^verbatim>\<open>HPOMonitor\<close>, every call it makes returns and the resolver's assertion holds, and
  then: the step function of \<open>w\<close> is what \<^verbatim>\<open>jit\<close> returned for the \<^verbatim>\<open>vmap\<close> of the
  \<^verbatim>\<open>use_state\<close> of \<^verbatim>\<open>workflow.step\<close>, compiled against that batched function's
  \<^verbatim>\<open>init_state(num_instances)\<close>.  If the workflow's class does not override
  \<^verbatim>\<open>init_step\<close>, the first-step function of \<open>w\<close> is this same function and the stored
  initial state is that batched state.  Otherwise \<^verbatim>\<open>workflow.init_step\<close> is traced,
  batched over \<^verbatim>\<open>num_instances\<close> and compiled on its own, after the ordinary step; the
  result is the first-step function of \<open>w\<close>, and the stored initial state is the one of
  the batched \<^verbatim>\<open>init_step\<close>.  In \<^verbatim>\<open>evaluate\<close>, once the hyperparameters have passed
  the assertions, the first-step function is applied to the updated copy of the stored
  state, and the ordinary step function \<^verbatim>\<open>iterations - 1\<close> times to what it returns.
\<close>

theorem setup_init_step:
  "(HPOProblemWrapper_setup core self workflow s = (Inr w, s') \<longleftrightarrow>
   (\<exists>monitor st s1 nb s2 mk vt s3 init s4 jit_step s5 jit_fitness s6 s7.
      map_of (submodules workflow) ''monitor'' = Some (HPOMonitor_instance monitor)
    \<and> use_state core (step workflow) s = (Inr st, s1)
    \<and> sf_init_state st False s1 = (Inr nb, s2)
    \<and> resolve_monitor_keys (dicts s2 ! nb) (mon_state_dict monitor s) = Inr mk
    \<and> vmap core st s2 = (Inr vt, s3)
    \<and> vf_init_state vt (num_instances self) s3 = (Inr init, s4)
    \<and> jit core (vf_call vt) init s4 = (Inr jit_step, s5)
    \<and> jit core (get_monitor_fitness monitor mk) init s5 = (Inr jit_fitness, s6)
    \<and> mon_load_state_dict monitor (mon_state_dict monitor s) s6 = (Inr (), s7)
    \<and> (case init_step_override workflow of
          None \<Rightarrow>
            w = \<lparr>iterations = iterations self, num_instances = num_instances self,
                 init_state = init, workflow_step = jit_step, workflow_init_step = jit_step,
                 monitor_fitness = jit_fitness\<rparr>
            \<and> s' = s7
        | Some init_step \<Rightarrow>
            (\<exists>st' s8 vt' s9 init' s10 jit_init_step.
                use_state core init_step s7 = (Inr st', s8)
              \<and> vmap core st' s8 = (Inr vt', s9)
              \<and> vf_init_state vt' (num_instances self) s9 = (Inr init', s10)
              \<and> jit core (vf_call vt') init' s10 = (Inr jit_init_step, s')
              \<and> w = \<lparr>iterations = iterations self, num_instances = num_instances self,
                     init_state = init', workflow_step = jit_step,
                     workflow_init_step = jit_init_step, monitor_fitness = jit_fitness\<rparr>))))
   \<and> (check_hyper_parameters t (dicts t ! init_state w) hp = None \<longrightarrow>
        evaluate w hp t =
          (case workflow_init_step w (length (dicts t)) (start_world w hp t) of
             (Inl e, t1) \<Rightarrow> (Inl e, t1)
           | (Inr state1, t1) \<Rightarrow>
               (case repeat_step (nat (iterations w - 1)) (workflow_step w) state1 t1 of
                  (Inl e, t2) \<Rightarrow> (Inl e, t2)
                | (Inr state2, t2) \<Rightarrow> monitor_fitness w state2 t2)))"
  (is "(?L \<longleftrightarrow> ?R) \<and> ?E")
proof (rule conjI)
  show ?E by (simp add: evaluate_unfold)
next
  show "?L \<longleftrightarrow> ?R"
  proof
  assume ?L
  then obtain monitor where
    m: "map_of (submodules workflow) ''monitor'' = Some (HPOMonitor_instance monitor)"
    by (auto simp: HPOProblemWrapper_setup_def get_submodule_def
        split: option.splits module.splits)
  let ?ms = "mon_state_dict monitor s"
  from \<open>?L\<close> m obtain st s1 nb s2 where
    a: "use_state core (step workflow) s = (Inr st, s1)"
       "sf_init_state st False s1 = (Inr nb, s2)"
    and rest: "(case resolve_monitor_keys (dicts s2 ! nb) ?ms of
                  Inl e \<Rightarrow> (Inl e, s2)
                | Inr mk \<Rightarrow>
                     bind (vmap core st) (\<lambda>vmap_state_step.
                     bind (vf_init_state vmap_state_step (num_instances self)) (\<lambda>init.
                     bind (jit core (vf_call vmap_state_step) init) (\<lambda>jit_step.
                     bind (jit core (get_monitor_fitness monitor mk) init) (\<lambda>jit_fitness.
                     bind (mon_load_state_dict monitor ?ms) (\<lambda>u.
                       case init_step_override workflow of
                         None \<Rightarrow>
                           return \<lparr>iterations = iterations self,
                                   num_instances = num_instances self,
                                   init_state = init,
                                   workflow_step = jit_step,
                                   workflow_init_step = jit_step,
                                   monitor_fitness = jit_fitness\<rparr>
                       | Some init_step \<Rightarrow>
                           bind (use_state core init_step) (\<lambda>state_init_step.
                           bind (vmap core state_init_step) (\<lambda>vmap_state_init_step.
                           bind (vf_init_state vmap_state_init_step (num_instances self)) (\<lambda>init'.
                           bind (jit core (vf_call vmap_state_init_step) init') (\<lambda>jit_init_step.
                             return \<lparr>iterations = iterations self,
                                     num_instances = num_instances self,
                                     init_state = init',
                                     workflow_step = jit_step,
                                     workflow_init_step = jit_init_step,
                                     monitor_fitness = jit_fitness\<rparr>))))))))) s2)
               = (Inr w, s')"
    by (auto simp: HPOProblemWrapper_setup_def get_submodule_def bind_Inr Let_def)
  from rest obtain mk where mk: "resolve_monitor_keys (dicts s2 ! nb) ?ms = Inr mk"
    by (cases "resolve_monitor_keys (dicts s2 ! nb) ?ms") auto
  from rest mk obtain vt s3 init s4 jit_step s5 jit_fitness s6 s7 where
    b: "vmap core st s2 = (Inr vt, s3)"
       "vf_init_state vt (num_instances self) s3 = (Inr init, s4)"
       "jit core (vf_call vt) init s4 = (Inr jit_step, s5)"
       "jit core (get_monitor_fitness monitor mk) init s5 = (Inr jit_fitness, s6)"
       "mon_load_state_dict monitor ?ms s6 = (Inr (), s7)"
    and last: "(case init_step_override workflow of
                         None \<Rightarrow>
                           return \<lparr>iterations = iterations self,
                                   num_instances = num_instances self,
                                   init_state = init,
                                   workflow_step = jit_step,
                                   workflow_init_step = jit_step,
                                   monitor_fitness = jit_fitness\<rparr>
                       | Some init_step \<Rightarrow>
                           bind (use_state core init_step) (\<lambda>state_init_step.
                           bind (vmap core state_init_step) (\<lambda>vmap_state_init_step.
                           bind (vf_init_state vmap_state_init_step (num_instances self)) (\<lambda>init'.
                           bind (jit core (vf_call vmap_state_init_step) init') (\<lambda>jit_init_step.
                             return \<lparr>iterations = iterations self,
                                     num_instances = num_instances self,
                                     init_state = init',
                                     workflow_step = jit_step,
                                     workflow_init_step = jit_init_step,
                                     monitor_fitness = jit_fitness\<rparr>))))) s7
               = (Inr w, s')"
    by (auto simp: bind_Inr)
  have c: "case init_step_override workflow of
          None \<Rightarrow>
            w = \<lparr>iterations = iterations self, num_instances = num_instances self,
                 init_state = init, workflow_step = jit_step, workflow_init_step = jit_step,
                 monitor_fitness = jit_fitness\<rparr>
            \<and> s' = s7
        | Some init_step \<Rightarrow>
            (\<exists>st' s8 vt' s9 init' s10 jit_init_step.
                use_state core init_step s7 = (Inr st', s8)
              \<and> vmap core st' s8 = (Inr vt', s9)
              \<and> vf_init_state vt' (num_instances self) s9 = (Inr init', s10)
              \<and> jit core (vf_call vt') init' s10 = (Inr jit_init_step, s')
              \<and> w = \<lparr>iterations = iterations self, num_instances = num_instances self,
                     init_state = init', workflow_step = jit_step,
                     workflow_init_step = jit_init_step, monitor_fitness = jit_fitness\<rparr>)"
  proof (cases "init_step_override workflow")
    case None
    with last show ?thesis by (auto simp: return_Inr)
  next
    case (Some init_step)
    with last show ?thesis by (fastforce simp: bind_Inr return_Inr)
  qed
  show ?R
    by (intro exI conjI) (rule m a b mk c)+
next
  assume ?R
  then obtain monitor st s1 nb s2 mk vt s3 init s4 jit_step s5 jit_fitness s6 s7 where
    m: "map_of (submodules workflow) ''monitor'' = Some (HPOMonitor_instance monitor)"
    and a: "use_state core (step workflow) s = (Inr st, s1)"
       "sf_init_state st False s1 = (Inr nb, s2)"
       "resolve_monitor_keys (dicts s2 ! nb) (mon_state_dict monitor s) = Inr mk"
       "vmap core st s2 = (Inr vt, s3)"
       "vf_init_state vt (num_instances self) s3 = (Inr init, s4)"
       "jit core (vf_call vt) init s4 = (Inr jit_step, s5)"
       "jit core (get_monitor_fitness monitor mk) init s5 = (Inr jit_fitness, s6)"
       "mon_load_state_dict monitor (mon_state_dict monitor s) s6 = (Inr (), s7)"
    and c: "case init_step_override workflow of
          None \<Rightarrow>
            w = \<lparr>iterations = iterations self, num_instances = num_instances self,
                 init_state = init, workflow_step = jit_step, workflow_init_step = jit_step,
                 monitor_fitness = jit_fitness\<rparr>
            \<and> s' = s7
        | Some init_step \<Rightarrow>
            (\<exists>st' s8 vt' s9 init' s10 jit_init_step.
                use_state core init_step s7 = (Inr st', s8)
              \<and> vmap core st' s8 = (Inr vt', s9)
              \<and> vf_init_state vt' (num_instances self) s9 = (Inr init', s10)
              \<and> jit core (vf_call vt') init' s10 = (Inr jit_init_step, s')
              \<and> w = \<lparr>iterations = iterations self, num_instances = num_instances self,
                     init_state = init', workflow_step = jit_step,
                     workflow_init_step = jit_init_step, monitor_fitness = jit_fitness\<rparr>)"
    by (elim exE conjE)
  show ?L
  proof (cases "init_step_override workflow")
    case None
    with m a c show ?thesis
      by (simp add: HPOProblemWrapper_setup_def get_submodule_def bind_def return_def Let_def)
  next
    case (Some init_step)
    with c obtain st' s8 vt' s9 init' s10 jit_init_step where
      d: "use_state core init_step s7 = (Inr st', s8)"
         "vmap core st' s8 = (Inr vt', s9)"
         "vf_init_state vt' (num_instances self) s9 = (Inr init', s10)"
         "jit core (vf_call vt') init' s10 = (Inr jit_init_step, s')"
         "w = \<lparr>iterations = iterations self, num_instances = num_instances self,
                     init_state = init', workflow_step = jit_step,
                     workflow_init_step = jit_init_step, monitor_fitness = jit_fitness\<rparr>"
      by (simp, elim exE conjE)
    with m a Some show ?thesis
      by (simp add: HPOProblemWrapper_setup_def get_submodule_def bind_def return_def Let_def)
  qed
qed
qed

text \<open>
  A workflow that overrides \<^verbatim>\<open>init_step\<close>: \<^verbatim>\<open>setup\<close> returns the wrapper whose first
  step advances the counter by 10 and whose ordinary step advances it by 1, and a call
  of \<^verbatim>\<open>evaluate\<close> with three iterations advances it by 12.
\<close>

theorem setup_init_step_witness:
  "HPOProblemWrapper_setup run_core \<lparr>iterations = 3, num_instances = 2\<rparr>
     ((ex_workflow (HPOMonitor_instance
         (HPOFitnessMonitor_module \<lparr>multi_obj_indicator = None, buffers = 1\<rparr>)))
        \<lparr>step := tick 1, init_step_override := Some (tick 10)\<rparr>) ex_world
     = (Inr ex_init_wrapper, ex_world)
   \<and> workflow_init_step ex_init_wrapper 0 ex_world = (Inr 0, ex_world\<lparr>rng := 10\<rparr>)
   \<and> workflow_step ex_init_wrapper 0 ex_world = (Inr 0, ex_world\<lparr>rng := 1\<rparr>)
   \<and> rng (snd (evaluate ex_init_wrapper [] ex_world)) = 12"
proof -
  let ?mon = "HPOFitnessMonitor_module \<lparr>multi_obj_indicator = None, buffers = 1\<rparr> :: (nd list, nat) hpo_monitor"
  let ?wf = "(ex_workflow (HPOMonitor_instance ?mon))\<lparr>step := tick 1, init_step_override := Some (tick 10)\<rparr>"
  let ?cfg = "\<lparr>iterations = 3, num_instances = 2\<rparr>"
  have w: "ex_world\<lparr>dicts := (dicts ex_world)[1 := dict_update (dicts ex_world ! 1) (dicts ex_world ! 1)]\<rparr> = ex_world"
    by (simp add: ex_world_def dict_update_def)
  have d1: "dicts ex_world ! 1 = [(''best_fitness'', 7)]"
    by (simp add: ex_world_def)
  have mk: "monitor_keys (dicts ex_world ! 2) (dicts ex_world ! 1) []
              = [(''monitor.best_fitness'', ''best_fitness'')]"
    by (simp add: ex_world_def)
  have "\<exists>monitor st s1 nb s2 mk vt s3 init s4 jit_step s5 jit_fitness s6 s7.
      map_of (submodules ?wf) ''monitor'' = Some (HPOMonitor_instance monitor)
    \<and> use_state run_core (step ?wf) ex_world = (Inr st, s1)
    \<and> sf_init_state st False s1 = (Inr nb, s2)
    \<and> resolve_monitor_keys (dicts s2 ! nb) (mon_state_dict monitor ex_world) = Inr mk
    \<and> vmap run_core st s2 = (Inr vt, s3)
    \<and> vf_init_state vt (num_instances ?cfg) s3 = (Inr init, s4)
    \<and> jit run_core (vf_call vt) init s4 = (Inr jit_step, s5)
    \<and> jit run_core (get_monitor_fitness monitor mk) init s5 = (Inr jit_fitness, s6)
    \<and> mon_load_state_dict monitor (mon_state_dict monitor ex_world) s6 = (Inr (), s7)
    \<and> (case init_step_override ?wf of
          None \<Rightarrow>
            ex_init_wrapper = \<lparr>iterations = iterations ?cfg, num_instances = num_instances ?cfg,
                 init_state = init, workflow_step = jit_step, workflow_init_step = jit_step,
                 monitor_fitness = jit_fitness\<rparr>
            \<and> ex_world = s7
        | Some init_step \<Rightarrow>
            (\<exists>st' s8 vt' s9 init' s10 jit_init_step.
                use_state run_core init_step s7 = (Inr st', s8)
              \<and> vmap run_core st' s8 = (Inr vt', s9)
              \<and> vf_init_state vt' (num_instances ?cfg) s9 = (Inr init', s10)
              \<and> jit run_core (vf_call vt') init' s10 = (Inr jit_init_step, ex_world)
              \<and> ex_init_wrapper = \<lparr>iterations = iterations ?cfg, num_instances = num_instances ?cfg,
                     init_state = init', workflow_step = jit_step,
                     workflow_init_step = jit_init_step, monitor_fitness = jit_fitness\<rparr>))"
    using w d1 mk
    by (simp add: run_core_def ex_workflow_def return_def HPOFitnessMonitor_module_def
        install_state_dict_def resolve_monitor_keys_def ex_init_wrapper_def Let_def)
  then have r: "HPOProblemWrapper_setup run_core ?cfg ?wf ex_world = (Inr ex_init_wrapper, ex_world)"
    by (rule iffD2[OF setup_init_step[THEN conjunct1]])
  have i: "workflow_init_step ex_init_wrapper 0 ex_world = (Inr 0, ex_world\<lparr>rng := 10\<rparr>)"
    and t: "workflow_step ex_init_wrapper 0 ex_world = (Inr 0, ex_world\<lparr>rng := 1\<rparr>)"
    by (simp_all add: ex_init_wrapper_def bind_def return_def tick_def ex_world_def)
  have e: "rng (snd (evaluate ex_init_wrapper [] ex_world)) = 12"
    by code_simp
  from r i t e show ?thesis by (intro conjI)
qed

section \<open>The frame of evaluate\<close>




section \<open>The monitor check\<close>

text \<open>
  Claim C9.  If the submodule \<^verbatim>\<open>monitor\<close> of the workflow does not expose
  \<^verbatim>\<open>tell_fitness\<close>, or more generally is not an instance of \<^verbatim>\<open>HPOMonitor\<close>,
  \<^verbatim>\<open>setup\<close> raises the assertion error and the store is unchanged, whatever
  \<^verbatim>\<open>use_state\<close>, \<^verbatim>\<open>vmap\<close> and \<^verbatim>\<open>jit\<close> are: nothing has been traced or compiled.
  Every instance of \<^verbatim>\<open>HPOMonitor\<close> exposes \<^verbatim>\<open>tell_fitness\<close>.  Without a submodule of
  that name, \<^verbatim>\<open>get_submodule\<close> raises.
\<close>

theorem setup_rejects_incapable_monitor:
  "(map_of (submodules workflow) ''monitor'' = Some m \<and> \<not> exposes_tell_fitness m \<longrightarrow>
      (\<forall>core. HPOProblemWrapper_setup core self workflow s
                = (Inl (AssertionError Monitor_not_HPOMonitor), s)))
   \<and> (map_of (submodules workflow) ''monitor'' = Some m \<and> \<not> isinstance_HPOMonitor m \<longrightarrow>
      (\<forall>core. HPOProblemWrapper_setup core self workflow s
                = (Inl (AssertionError Monitor_not_HPOMonitor), s)))
   \<and> (isinstance_HPOMonitor m \<longrightarrow> exposes_tell_fitness m)
   \<and> (map_of (submodules workflow) ''monitor'' = None \<longrightarrow>
      (\<forall>core. HPOProblemWrapper_setup core self workflow s = (Inl (AttributeError ''monitor''), s)))"
  by (cases m) (auto simp: HPOProblemWrapper_setup_def get_submodule_def)

text \<open>A monitor that only has \<^verbatim>\<open>pre_tell\<close> is refused.\<close>

theorem setup_rejects_incapable_monitor_witness:
  "HPOProblemWrapper_setup ex_core \<lparr>iterations = 3, num_instances = 2\<rparr>
     (ex_workflow (Other_module [''pre_tell''])) ex_world
   = (Inl (AssertionError Monitor_not_HPOMonitor), ex_world)"
proof -
  have "map_of (submodules (ex_workflow (Other_module [''pre_tell'']))) ''monitor''
          = Some (Other_module [''pre_tell''])
        \<and> \<not> exposes_tell_fitness (Other_module [''pre_tell''] :: (nd list, nat) module)"
    by (simp add: ex_workflow_def)
  with setup_rejects_incapable_monitor[of "ex_workflow (Other_module [''pre_tell''])"
         "Other_module [''pre_tell'']" "\<lparr>iterations = 3, num_instances = 2\<rparr>" ex_world]
  show ?thesis by blast
qed

section \<open>Further properties\<close>

text \<open>
  With an \<^verbatim>\<open>HPOFitnessMonitor\<close> whose buffer \<^verbatim>\<open>best_fitness\<close> is resolved to the state
  key \<open>k\<close>, \<^verbatim>\<open>get_monitor_fitness\<close> installs \<open>x[k]\<close> into the monitor and
  \<^verbatim>\<open>tell_fitness\<close> returns it: the function returns the state's entry under \<open>k\<close>
  and creates no tensor.
\<close>

theorem fitness_read_of_HPOFitnessMonitor:
  assumes "buffers mon < length (dicts s)"
  shows "fst (get_monitor_fitness (HPOFitnessMonitor_module mon) [(k, ''best_fitness'')] x s)
           = fst (read_entry k x s)
       \<and> tensors (snd (get_monitor_fitness (HPOFitnessMonitor_module mon) [(k, ''best_fitness'')] x s))
           = tensors s"
  using assms
  by (auto simp: get_monitor_fitness_def HPOFitnessMonitor_module_def bind_def install_state_dict_def
      tell_fitness_def getattr_def read_entry_def map_of_dict_update map_add_def
      split: option.splits)

text \<open>On the example's initial state the read returns tensor 2.\<close>

theorem fitness_read_of_HPOFitnessMonitor_witness:
  "fst (get_monitor_fitness (HPOFitnessMonitor_module \<lparr>multi_obj_indicator = None, buffers = 1\<rparr>)
          [(''monitor.best_fitness'', ''best_fitness'')] 0 ex_world) = Inr 2"
proof -
  have "buffers \<lparr>multi_obj_indicator = None, buffers = 1\<rparr> < length (dicts ex_world)"
    by (simp add: ex_world_def)
  from fitness_read_of_HPOFitnessMonitor[OF this, of "''monitor.best_fitness''" 0]
  show ?thesis by (simp add: read_entry_def ex_world_def)
qed

text \<open>
  The constructor of \<^verbatim>\<open>HPOProblemWrapper\<close> accepts exactly positive \<^verbatim>\<open>iterations\<close>
  and \<^verbatim>\<open>num_instances\<close>; the assertion on \<^verbatim>\<open>iterations\<close> comes first.
\<close>

theorem init_checks_counts:
  "HPOProblemWrapper_init its n
     = (if 0 < its \<and> 0 < n then Inr \<lparr>iterations = its, num_instances = n\<rparr>
        else if 0 < its then Inl (AssertionError (Num_instances_not_positive n))
        else Inl (AssertionError (Iterations_not_positive its)))"
  by (simp add: HPOProblemWrapper_init_def)

text \<open>
  For a fitness tensor that is not one-dimensional \<^verbatim>\<open>pre_tell\<close> does nothing: the
  multi-objective branch is a placeholder.
\<close>

theorem pre_tell_multi_objective:
  "ndim fitness \<noteq> 1 \<Longrightarrow> pre_tell self fitness s = (Inr (), s)"
  by (simp add: pre_tell_def)

text \<open>A two-by-two fitness tensor leaves the monitor as it is.\<close>

theorem pre_tell_multi_objective_witness:
  "pre_tell \<lparr>multi_obj_indicator = None, buffers = 0\<rparr>
     \<lparr>shape = [2, 2], elems = [Finite 1, Finite 2, Finite 3, Finite 4]\<rparr>
     (\<lparr>tensors = [], dicts = [[]], rng = ()\<rparr> :: (ftensor, unit) world)
   = (Inr (), \<lparr>tensors = [], dicts = [[]], rng = ()\<rparr>)"
  using pre_tell_multi_objective[of "\<lparr>shape = [2, 2], elems = [Finite 1, Finite 2, Finite 3, Finite 4]\<rparr>"
      "\<lparr>multi_obj_indicator = None, buffers = 0\<rparr>" "\<lparr>tensors = [], dicts = [[]], rng = ()\<rparr> :: (ftensor, unit) world"]
  by (simp add: ndim_def)

end
